theory Spec2Isabelle
  imports Complex_Main
begin

section \<open>The NEP-5 faucet: request admission and rate limiting\<close>

text \<open>
  A shallow embedding of \<^verbatim>\<open>src/app/faucet.py\<close> (class \<^verbatim>\<open>ItemStore\<close>) and of the two
  DynamoDB models \<^verbatim>\<open>src/app/db_models/IPRequest.py\<close> and
  \<^verbatim>\<open>src/app/db_models/FaucetRequest.py\<close>.

  What the handlers read from outside the repository (the klein request, the clock, the
  wallet, the blockchain libraries, failures of the DynamoDB calls) is a field of the record
  \<open>request\<close>; what they change (the two tables and \<^verbatim>\<open>self.sent_tx\<close>) is the record
  \<open>faucet_state\<close>; every call that leaves the process (a table query, a table write, a
  contract invocation, a wallet rebuild) is also logged as an \<open>effect\<close>, in program
  order. Logging (\<^verbatim>\<open>logger\<close>, \<^verbatim>\<open>logger_request\<close>) and the three-second \<^verbatim>\<open>sleep\<close> are left
  out: nothing reads them back. The reads \<^verbatim>\<open>_get_context\<close> makes of the wallet and the
  blockchain, and the rendering of a template, are taken to return.
\<close>

subsection \<open>Python values\<close>

text \<open>An exception, by its \<^verbatim>\<open>str(e)\<close>: that is all \<^verbatim>\<open>ask_for_assets\<close> reads of it.\<close>

datatype exn = Exception string

fun str_exn :: "exn \<Rightarrow> string" where
  "str_exn (Exception m) = m"

text \<open>The values a template context holds.\<close>

datatype py = PNone | PBool bool | PInt int | PStr string

text \<open>
  The context \<^verbatim>\<open>ctx\<close> is a Python dict with string keys. The key under which the balance
  is stored is the configured token symbol, so it can coincide with another key; a map
  keeps that possibility.
\<close>

type_synonym ctx = "string \<rightharpoonup> py"

text \<open>
  \<^verbatim>\<open>ctx[key] < 10000\<close>: a missing key raises KeyError, a \<^verbatim>\<open>str\<close> or \<^verbatim>\<open>None\<close> operand
  raises TypeError, a \<^verbatim>\<open>bool\<close> compares as 0 or 1.
\<close>

fun py_less_int :: "py option \<Rightarrow> int \<Rightarrow> exn + bool" where
  "py_less_int None n = Inl (Exception ''KeyError'')"
| "py_less_int (Some (PInt i)) n = Inr (i < n)"
| "py_less_int (Some (PBool b)) n = Inr ((if b then 1 else 0) < n)"
| "py_less_int (Some (PStr s)) n = Inl (Exception ''TypeError'')"
| "py_less_int (Some PNone) n = Inl (Exception ''TypeError'')"

text \<open>
  \<^verbatim>\<open>str.strip()\<close>: leading and trailing whitespace removed. For code points below 256
  Python's whitespace is tab, LF, VT, FF, CR, the separators 0x1C to 0x1F, space, 0x85
  and 0xA0.
\<close>

definition isspace :: "char \<Rightarrow> bool" where
  "isspace c = (of_char c \<in> {9, 10, 11, 12, 13, 28, 29, 30, 31, 32, 133, 160 :: nat})"

definition strip :: "string \<Rightarrow> string" where
  "strip s = rev (dropWhile isspace (rev (dropWhile isspace s)))"

text \<open>
  \<^verbatim>\<open>str(request.getHeader(key='x-real-ip'))\<close>: asked with a \<^verbatim>\<open>str\<close> key, twisted gives
  the header as a \<^verbatim>\<open>str\<close>, or \<^verbatim>\<open>None\<close> when the request has no such header; the \<^verbatim>\<open>str\<close>
  of \<^verbatim>\<open>None\<close> is "None".
\<close>

fun str_header :: "string option \<Rightarrow> string" where
  "str_header None = ''None''"
| "str_header (Some h) = h"

subsection \<open>Time\<close>

text \<open>
  A \<^verbatim>\<open>datetime\<close> is an instant in microseconds (its resolution); \<^verbatim>\<open>timedelta(days=d)\<close> is
  a number of microseconds. pynamodb stores \<^verbatim>\<open>UTCDateTimeAttribute\<close> as fixed-width text
  whose order is the order of the instants, so the range-key comparison of a query is the
  comparison of instants. \<^verbatim>\<open>time()\<close> is a real number of seconds.
\<close>

type_synonym instant = int

definition timedelta_days :: "int \<Rightarrow> int" where
  "timedelta_days d = d * 86400000000"

subsection \<open>The DynamoDB models\<close>

text \<open>
  \<^verbatim>\<open>IPRequest\<close> and \<^verbatim>\<open>FaucetRequest\<close> have the same shape: a hash key (\<^verbatim>\<open>ip_address\<close>,
  \<^verbatim>\<open>wallet_address\<close>), the range key \<^verbatim>\<open>last_visited\<close> and the number \<^verbatim>\<open>ttl\<close>. A table is
  the list of its items; hash key and range key together are the primary key.
\<close>

record item =
  hash_key :: string
  last_visited :: instant
  ttl :: real

definition IPRequest :: "string \<Rightarrow> instant \<Rightarrow> real \<Rightarrow> item" where
  "IPRequest ip_address lv t = \<lparr>hash_key = ip_address, last_visited = lv, ttl = t\<rparr>"

definition FaucetRequest :: "string \<Rightarrow> instant \<Rightarrow> real \<Rightarrow> item" where
  "FaucetRequest wallet_address lv t = \<lparr>hash_key = wallet_address, last_visited = lv, ttl = t\<rparr>"

definition same_key :: "item \<Rightarrow> item \<Rightarrow> bool" where
  "same_key a b = (hash_key a = hash_key b \<and> last_visited a = last_visited b)"

text \<open>
  \<^verbatim>\<open>Model.save()\<close> is DynamoDB's PutItem: the item replaces the one with the same
  primary key, if there is one.
\<close>

definition save :: "item \<Rightarrow> item list \<Rightarrow> item list" where
  "save it tbl = filter (\<lambda>r. \<not> same_key r it) tbl @ [it]"

text \<open>
  \<^verbatim>\<open>Model.query(hash_key=k, range_key_condition=cond, limit=n)\<close>: the items of hash key
  \<open>k\<close> whose range key satisfies the condition, in ascending range-key order, at most
  \<open>n\<close> of them.
\<close>

definition query :: "item list \<Rightarrow> string \<Rightarrow> (instant \<Rightarrow> bool) \<Rightarrow> nat \<Rightarrow> item list" where
  "query tbl k cond n =
     take n (sort_key last_visited (filter (\<lambda>r. hash_key r = k \<and> cond (last_visited r)) tbl))"

text \<open>
  Lines 258 to 262 and 280 to 284 of \<^verbatim>\<open>faucet.py\<close>:
  \<^verbatim>\<open>count = 0; for item in Model.query(hash_key=k, range_key_condition=Model.last_visited > past_week, limit=10): count += 1\<close>.
\<close>

definition count_past_week :: "item list \<Rightarrow> string \<Rightarrow> instant \<Rightarrow> int" where
  "count_past_week tbl k past_week =
     fold (\<lambda>item count. count + 1) (query tbl k (\<lambda>lv. lv > past_week) 10) 0"

subsection \<open>Configuration, state, requests\<close>

text \<open>The fields \<^verbatim>\<open>__init__\<close> reads from the environment.\<close>

record config =
  token_name :: string
  token_symbol :: string
  token_script_hash :: string
  faucet_wallet_addr :: string

text \<open>
  What \<^verbatim>\<open>InvokeContract\<close> returns: an \<^verbatim>\<open>InvocationTransaction\<close> (of which the handlers
  read the dumped \<^verbatim>\<open>ToJson()\<close> and \<^verbatim>\<open>Hash.ToString()\<close>) or any other object (of which
  they read \<^verbatim>\<open>str\<close> and the truth value).
\<close>

record tx =
  ToJson :: string
  Hash :: string

datatype tx_value = InvocationTransaction tx | Other string bool

text \<open>\<^verbatim>\<open>not self.sent_tx\<close>: \<^verbatim>\<open>None\<close> and falsy objects; a transaction object is truthy.\<close>

fun falsy :: "tx_value option \<Rightarrow> bool" where
  "falsy None = True"
| "falsy (Some (InvocationTransaction t)) = False"
| "falsy (Some (Other s b)) = (\<not> b)"

record faucet_state =
  IPRequest_table :: "item list"
  FaucetRequest_table :: "item list"
  sent_tx :: "tx_value option"

text \<open>
  One HTTP request with everything the handler reads from outside while serving it:
  the form field and the proxy header, \<^verbatim>\<open>datetime.now()\<close> and \<^verbatim>\<open>time()\<close>, the wallet's
  token balance (\<^verbatim>\<open>None\<close> when the wallet has none) and the two heights, the codec, an
  exception for each DynamoDB call that fails, and the results of the two neo-python calls
  \<^verbatim>\<open>Helper.AddrStrToScriptHash(...).ToArray()\<close> and \<^verbatim>\<open>TestInvokeContract\<close> followed by
  \<^verbatim>\<open>InvokeContract\<close>.
\<close>

record request =
  args_address_to :: "string list option"
  header_x_real_ip :: "string option"
  datetime_now :: instant
  time_now :: real
  GetTokenBalance :: "int option"
  Height :: int
  WalletHeight :: int
  decode_utf8 :: "string \<Rightarrow> exn + string"
  IPRequest_query_raises :: "exn option"
  FaucetRequest_query_raises :: "exn option"
  IPRequest_save_raises :: "exn option"
  FaucetRequest_save_raises :: "exn option"
  AddrStrToScriptHash :: "string \<Rightarrow> exn + string"
  InvokeContract :: "exn + tx_value"

datatype effect =
    Query_IPRequest string instant
  | Query_FaucetRequest string instant
  | Save_IPRequest item
  | Save_FaucetRequest item
  | Invoke_transfer string string int
  | Wallet_Rebuild
  | Wallet_current_height int

text \<open>
  What a handler answers: a redirect, a rendered template with its context, or an
  exception that no \<^verbatim>\<open>except\<close> catches.
\<close>

datatype response = Redirect string | Rendered string ctx | Unhandled exn

subsection \<open>\<^verbatim>\<open>_get_context\<close> and \<^verbatim>\<open>index\<close>\<close>

definition get_context :: "config \<Rightarrow> request \<Rightarrow> ctx" where
  "get_context cfg req =
     (let token_balance = (case GetTokenBalance req of None \<Rightarrow> 0 | Some b \<Rightarrow> b)
      in Map.empty
           (''message'' \<mapsto> PStr ''Welcome to NEP-5 Faucet'',
            ''faucet_wallet'' \<mapsto> PStr (faucet_wallet_addr cfg),
            ''height'' \<mapsto> PInt (Height req),
            ''wallet_height'' \<mapsto> PInt (WalletHeight req),
            token_symbol cfg \<mapsto> PInt token_balance,
            ''token_name'' \<mapsto> PStr (token_name cfg),
            ''token_symbol'' \<mapsto> PStr (token_symbol cfg),
            ''token_script_hash'' \<mapsto> PStr (token_script_hash cfg)))"

definition index :: "config \<Rightarrow> request \<Rightarrow> response" where
  "index cfg req =
     (let ctx = get_context cfg req
      in case py_less_int (ctx (token_symbol cfg)) 10000 of
           Inl e \<Rightarrow> Unhandled e
         | Inr True \<Rightarrow>
             Rendered ''index.html''
               (ctx(''error'' \<mapsto> PBool True,
                    ''message'' \<mapsto> PStr ''NO ASSETS AVAILABLE. Come back later.'',
                    ''come_back'' \<mapsto> PBool True))
         | Inr False \<Rightarrow> Rendered ''index.html'' ctx)"

subsection \<open>\<^verbatim>\<open>ask_for_assets\<close>\<close>

text \<open>
  The local variables of \<^verbatim>\<open>ask_for_assets\<close> that change while it runs, together with
  the state of the faucet, the effects so far and how control stands: still running,
  left by \<^verbatim>\<open>return\<close>, or left by an exception on its way to the \<^verbatim>\<open>except\<close> clause.
\<close>

datatype flow = Running | Returned response | Raised exn

record frame =
  ctx :: ctx
  proceed :: bool
  step :: int
  client :: "string option"
  iprequest_item :: "item option"
  faucetrequest_item :: "item option"
  self :: faucet_state
  effects :: "effect list"
  flow :: flow

definition raise :: "exn \<Rightarrow> frame \<Rightarrow> frame" where
  "raise e l = l\<lparr>flow := Raised e\<rparr>"

definition log :: "effect \<Rightarrow> frame \<Rightarrow> frame" where
  "log x l = l\<lparr>effects := effects l @ [x]\<rparr>"

text \<open>Sequencing: the next statement runs only while control is still in the body.\<close>

definition then_do :: "frame \<Rightarrow> (frame \<Rightarrow> frame) \<Rightarrow> frame" where
  "then_do l f = (case flow l of Running \<Rightarrow> f l | Returned r \<Rightarrow> l | Raised e \<Rightarrow> l)"

text \<open>Lines 236 to 241.\<close>

definition now :: "request \<Rightarrow> instant" where
  "now req = datetime_now req"

definition past_week :: "request \<Rightarrow> instant" where
  "past_week req = now req - timedelta_days 7"

definition week_in_sec :: real where
  "week_in_sec = 60 * 60 * 24 * 7"

definition expire_date :: "request \<Rightarrow> real" where
  "expire_date req = time_now req + week_in_sec"

text \<open>Lines 252 to 274: the check of the IP address.\<close>

definition IPRequest_block :: "request \<Rightarrow> frame \<Rightarrow> frame" where
  "IPRequest_block req l =
     (if proceed l \<and> step l = 0 then
        let client = str_header (header_x_real_ip req);
            l = l\<lparr>client := Some client,
                  iprequest_item := Some (IPRequest client (now req) (expire_date req))\<rparr>;
            l = log (Query_IPRequest client (past_week req)) l
        in case IPRequest_query_raises req of
             Some e \<Rightarrow> raise e l
           | None \<Rightarrow>
               let count = count_past_week (IPRequest_table (self l)) client (past_week req)
               in if count \<ge> 3 then
                    l\<lparr>proceed := False,
                      ctx := (ctx l)
                        (''message'' \<mapsto> PStr
                           ''You have requested too many times for this time period. Try again next week.'',
                         ''error'' \<mapsto> PBool True)\<rparr>
                  else l\<lparr>step := step l + 1\<rparr>
      else if proceed l \<and> step l = 0 then
        l\<lparr>ctx := (ctx l)(''error'' \<mapsto> PBool True,
                          ''message'' \<mapsto> PStr ''Request failed. Please try again.'')\<rparr>
      else l)"

text \<open>Lines 292 and 293: the two writes, the IP record first.\<close>

definition save_IPRequest :: "request \<Rightarrow> frame \<Rightarrow> frame" where
  "save_IPRequest req l =
     (case iprequest_item l of
        None \<Rightarrow> raise (Exception ''AttributeError'') l
      | Some it \<Rightarrow>
          (let l = log (Save_IPRequest it) l
           in case IPRequest_save_raises req of
                Some e \<Rightarrow> raise e l
              | None \<Rightarrow>
                  l\<lparr>self := (self l)\<lparr>IPRequest_table := save it (IPRequest_table (self l))\<rparr>\<rparr>))"

definition save_FaucetRequest :: "request \<Rightarrow> frame \<Rightarrow> frame" where
  "save_FaucetRequest req l =
     (case faucetrequest_item l of
        None \<Rightarrow> raise (Exception ''AttributeError'') l
      | Some it \<Rightarrow>
          (let l = log (Save_FaucetRequest it) l
           in case FaucetRequest_save_raises req of
                Some e \<Rightarrow> raise e l
              | None \<Rightarrow>
                  l\<lparr>self := (self l)\<lparr>FaucetRequest_table := save it (FaucetRequest_table (self l))\<rparr>\<rparr>))"

text \<open>Lines 276 to 302: the check of the wallet address, and the commit of both records.\<close>

definition FaucetRequest_block :: "request \<Rightarrow> string \<Rightarrow> frame \<Rightarrow> frame" where
  "FaucetRequest_block req address_to l =
     (if proceed l \<and> step l = 1 then
        let l = l\<lparr>faucetrequest_item :=
                    Some (FaucetRequest address_to (now req) (expire_date req))\<rparr>;
            l = log (Query_FaucetRequest address_to (past_week req)) l
        in case FaucetRequest_query_raises req of
             Some e \<Rightarrow> raise e l
           | None \<Rightarrow>
               let count = count_past_week (FaucetRequest_table (self l)) address_to (past_week req)
               in if count \<ge> 1 then
                    l\<lparr>proceed := False,
                      ctx := (ctx l)
                        (''message'' \<mapsto> PStr ''Already requested within the past week'',
                         ''error'' \<mapsto> PBool True)\<rparr>
                  else
                    then_do (then_do (save_IPRequest req l) (save_FaucetRequest req))
                      (\<lambda>l. l\<lparr>step := step l + 1\<rparr>)
      else if proceed l \<and> step l = 1 then
        l\<lparr>ctx := (ctx l)(''error'' \<mapsto> PBool True,
                          ''message'' \<mapsto> PStr ''Request failed. Please try again.'')\<rparr>
      else l)"

text \<open>
  \<^verbatim>\<open>_make_tx\<close>, lines 151 to 194: the drip is 10000 tokens, scaled by \<^verbatim>\<open>Fixed8.D\<close>; the
  value returned by \<^verbatim>\<open>InvokeContract\<close> is stored in \<^verbatim>\<open>self.sent_tx\<close> and returned. An
  exception of \<^verbatim>\<open>TestInvokeContract\<close> or \<^verbatim>\<open>InvokeContract\<close> leaves \<^verbatim>\<open>self.sent_tx\<close> as
  it was. The buffers \<^verbatim>\<open>self.invoke_args\<close> and \<^verbatim>\<open>self.params\<close> only carry the arguments
  of the invocation (sender, receiver, amount), which the effect records.
\<close>

definition make_tx :: "config \<Rightarrow> request \<Rightarrow> string \<Rightarrow> frame \<Rightarrow> frame \<times> (exn + tx_value)" where
  "make_tx cfg req address_to l =
     (let drip_amount = 10000;
          amount = drip_amount * 100000000
      in case AddrStrToScriptHash req (faucet_wallet_addr cfg) of
           Inl e \<Rightarrow> (l, Inl e)
         | Inr scripthash_from \<Rightarrow>
             (let l = log (Invoke_transfer scripthash_from address_to amount) l
              in case InvokeContract req of
                   Inl e \<Rightarrow> (l, Inl e)
                 | Inr v \<Rightarrow> (l\<lparr>self := (self l)\<lparr>sent_tx := Some v\<rparr>\<rparr>, Inr v)))"

text \<open>Lines 304 to 323: the transfer, and the \<^verbatim>\<open>else\<close> of \<^verbatim>\<open>step == 2\<close>.\<close>

definition transaction_block :: "config \<Rightarrow> request \<Rightarrow> string \<Rightarrow> frame \<Rightarrow> frame" where
  "transaction_block cfg req address_to l =
     (if proceed l \<and> step l = 2 then
        case AddrStrToScriptHash req address_to of
          Inl e \<Rightarrow> raise e l
        | Inr scripthash_to \<Rightarrow>
            (case make_tx cfg req scripthash_to l of
               (l, Inl e) \<Rightarrow> raise e l
             | (l, Inr (InvocationTransaction t)) \<Rightarrow>
                 l\<lparr>step := 0,
                   self := (self l)\<lparr>sent_tx := Some (InvocationTransaction t)\<rparr>,
                   flow := Returned (Redirect ''/success'')\<rparr>
             | (l, Inr (Other s b)) \<Rightarrow>
                 l\<lparr>ctx := (ctx l)
                   (''message'' \<mapsto> PStr (''Error constructing transaction: '' @ s),
                    ''error'' \<mapsto> PBool True)\<rparr>)
      else
        case ctx l ''message'' of
          None \<Rightarrow> raise (Exception ''KeyError'') l
        | Some m \<Rightarrow>
            if m = PNone then
              l\<lparr>ctx := (ctx l)
                (''message'' \<mapsto> PStr ''You must input a wallet address to proceed'',
                 ''error'' \<mapsto> PBool True)\<rparr>
            else l)"

text \<open>
  Lines 247 to 323, the body of \<^verbatim>\<open>try\<close>. Everything in it is under
  \<^verbatim>\<open>if b'address_to' in request.args\<close>, which has no \<^verbatim>\<open>else\<close>.
\<close>

definition try_body :: "config \<Rightarrow> request \<Rightarrow> frame \<Rightarrow> frame" where
  "try_body cfg req l =
     (case args_address_to req of
        None \<Rightarrow> l
      | Some values \<Rightarrow>
          (case values of
             [] \<Rightarrow> raise (Exception ''IndexError'') l
           | v # _ \<Rightarrow>
               (case decode_utf8 req v of
                  Inl e \<Rightarrow> raise e l
                | Inr a \<Rightarrow>
                    let address_to = strip a;
                        l = l\<lparr>ctx := (ctx l)(''address_to'' \<mapsto> PStr address_to),
                              client := None\<rparr>
                    in then_do
                         (then_do (IPRequest_block req l) (FaucetRequest_block req address_to))
                         (transaction_block cfg req address_to))))"

text \<open>
  Lines 324 to 330: the \<^verbatim>\<open>except\<close> clause, and the rendering of the index page when the
  body has not returned.
\<close>

definition answer :: "frame \<Rightarrow> response \<times> faucet_state \<times> effect list" where
  "answer l =
     (case flow l of
        Returned r \<Rightarrow> (r, self l, effects l)
      | Raised e \<Rightarrow>
          (Rendered ''index.html''
             ((ctx l)(''error'' \<mapsto> PBool True,
                      ''message'' \<mapsto> PStr (''Could not process request: '' @ str_exn e))),
           self l, effects l)
      | Running \<Rightarrow> (Rendered ''index.html'' (ctx l), self l, effects l))"

text \<open>
  Lines 228 to 330. The answer, the state afterwards and the effects of the call.
\<close>

definition ask_for_assets ::
  "config \<Rightarrow> request \<Rightarrow> faucet_state \<Rightarrow> response \<times> faucet_state \<times> effect list" where
  "ask_for_assets cfg req s =
     (let s = s\<lparr>sent_tx := None\<rparr>;
          ctx0 = (get_context cfg req)(''error'' \<mapsto> PBool False)
      in case py_less_int (ctx0 (token_symbol cfg)) 10000 of
           Inl e \<Rightarrow> (Unhandled e, s, [])
         | Inr True \<Rightarrow> (Redirect ''/'', s, [])
         | Inr False \<Rightarrow>
             answer
               (try_body cfg req
                  \<lparr>ctx = ctx0, proceed = True, step = 0, client = None,
                   iprequest_item = None, faucetrequest_item = None,
                   self = s, effects = [], flow = Running\<rparr>))"

subsection \<open>\<^verbatim>\<open>app_success\<close>\<close>

text \<open>
  Lines 340 to 354. A stored value that is truthy and no transaction has no \<^verbatim>\<open>ToJson\<close>:
  the AttributeError is not caught.
\<close>

definition app_success ::
  "config \<Rightarrow> request \<Rightarrow> faucet_state \<Rightarrow> response \<times> faucet_state \<times> effect list" where
  "app_success cfg req s =
     (let ctx0 = get_context cfg req
      in if falsy (sent_tx s) then (Redirect ''/'', s, [])
         else
           case sent_tx s of
             Some (InvocationTransaction t) \<Rightarrow>
               (Rendered ''success.html''
                  (ctx0(''tx_json'' \<mapsto> PStr (ToJson t),
                        ''message'' \<mapsto> PStr
                          (''Your request has been relayed to the network. Transaction: '' @ Hash t))),
                s\<lparr>sent_tx := None\<rparr>,
                [Wallet_Rebuild, Wallet_current_height 100000])
           | Some (Other v b) \<Rightarrow> (Unhandled (Exception ''AttributeError''), s, [])
           | None \<Rightarrow> (Unhandled (Exception ''AttributeError''), s, []))"

section \<open>Vocabulary of the theorems\<close>

text \<open>The three parts of what a handler gives back.\<close>

definition response_of :: "response \<times> faucet_state \<times> effect list \<Rightarrow> response" where
  "response_of x = fst x"

definition state_of :: "response \<times> faucet_state \<times> effect list \<Rightarrow> faucet_state" where
  "state_of x = fst (snd x)"

definition effects_of :: "response \<times> faucet_state \<times> effect list \<Rightarrow> effect list" where
  "effects_of x = snd (snd x)"

text \<open>What the rendered page shows under \<^verbatim>\<open>message\<close> and \<^verbatim>\<open>error\<close>.\<close>

fun message_of :: "response \<Rightarrow> py option" where
  "message_of (Rendered t c) = c ''message''"
| "message_of (Redirect u) = None"
| "message_of (Unhandled e) = None"

fun error_of :: "response \<Rightarrow> py option" where
  "error_of (Rendered t c) = c ''error''"
| "error_of (Redirect u) = None"
| "error_of (Unhandled e) = None"

text \<open>Reads and writes of the ledger among the effects.\<close>

fun is_ledger_read :: "effect \<Rightarrow> bool" where
  "is_ledger_read (Query_IPRequest k t) = True"
| "is_ledger_read (Query_FaucetRequest k t) = True"
| "is_ledger_read (Save_IPRequest it) = False"
| "is_ledger_read (Save_FaucetRequest it) = False"
| "is_ledger_read (Invoke_transfer f t n) = False"
| "is_ledger_read Wallet_Rebuild = False"
| "is_ledger_read (Wallet_current_height h) = False"

fun is_ledger_write :: "effect \<Rightarrow> bool" where
  "is_ledger_write (Query_IPRequest k t) = False"
| "is_ledger_write (Query_FaucetRequest k t) = False"
| "is_ledger_write (Save_IPRequest it) = True"
| "is_ledger_write (Save_FaucetRequest it) = True"
| "is_ledger_write (Invoke_transfer f t n) = False"
| "is_ledger_write Wallet_Rebuild = False"
| "is_ledger_write (Wallet_current_height h) = False"

fun is_wallet_query :: "effect \<Rightarrow> bool" where
  "is_wallet_query (Query_IPRequest k t) = False"
| "is_wallet_query (Query_FaucetRequest k t) = True"
| "is_wallet_query (Save_IPRequest it) = False"
| "is_wallet_query (Save_FaucetRequest it) = False"
| "is_wallet_query (Invoke_transfer f t n) = False"
| "is_wallet_query Wallet_Rebuild = False"
| "is_wallet_query (Wallet_current_height h) = False"

text \<open>
  The balance the context shows, and the test of line 243 on it. The test reads the
  context under the key \<^verbatim>\<open>token_symbol\<close>; it reads the balance unless the symbol is one
  of the keys written after it.
\<close>

definition balance :: "request \<Rightarrow> int" where
  "balance req = (case GetTokenBalance req of None \<Rightarrow> 0 | Some b \<Rightarrow> b)"

definition symbol_ok :: "config \<Rightarrow> bool" where
  "symbol_ok cfg =
     (token_symbol cfg \<notin> {''token_name'', ''token_symbol'', ''token_script_hash'', ''error''})"

definition balance_test :: "config \<Rightarrow> request \<Rightarrow> exn + bool" where
  "balance_test cfg req =
     py_less_int (((get_context cfg req)(''error'' \<mapsto> PBool False)) (token_symbol cfg)) 10000"

text \<open>
  The wallet address the body of \<^verbatim>\<open>try\<close> works with (line 248), when the form has the
  field and its first value decodes.
\<close>

definition form_address :: "request \<Rightarrow> string option" where
  "form_address req =
     (case args_address_to req of
        None \<Rightarrow> None
      | Some [] \<Rightarrow> None
      | Some (v # vs) \<Rightarrow> (case decode_utf8 req v of Inl e \<Rightarrow> None | Inr a \<Rightarrow> Some (strip a)))"

text \<open>
  A request gets as far as the IP check, with wallet address \<open>a\<close>: it passes the balance
  test and carries the form field.
\<close>

definition reaches_checks :: "config \<Rightarrow> request \<Rightarrow> string \<Rightarrow> bool" where
  "reaches_checks cfg req a = (balance_test cfg req = Inr False \<and> form_address req = Some a)"

text \<open>The frame in which the IP check starts (after line 250).\<close>

definition checks_frame :: "config \<Rightarrow> request \<Rightarrow> faucet_state \<Rightarrow> string \<Rightarrow> frame" where
  "checks_frame cfg req s a =
     \<lparr>ctx = (get_context cfg req)(''error'' \<mapsto> PBool False, ''address_to'' \<mapsto> PStr a),
      proceed = True, step = 0, client = None, iprequest_item = None,
      faucetrequest_item = None, self = s\<lparr>sent_tx := None\<rparr>, effects = [], flow = Running\<rparr>"

text \<open>The identity of the IP scope (line 254), and the counts the two checks observe.\<close>

definition client_of :: "request \<Rightarrow> string" where
  "client_of req = str_header (header_x_real_ip req)"

definition ip_count :: "request \<Rightarrow> faucet_state \<Rightarrow> int" where
  "ip_count req s = count_past_week (IPRequest_table s) (client_of req) (past_week req)"

definition wallet_count :: "request \<Rightarrow> string \<Rightarrow> faucet_state \<Rightarrow> int" where
  "wallet_count req a s = count_past_week (FaucetRequest_table s) a (past_week req)"

text \<open>
  A claim is admitted when the handler goes on to write the two records, and
  committed when moreover neither write fails.
\<close>

definition admitted :: "config \<Rightarrow> request \<Rightarrow> faucet_state \<Rightarrow> bool" where
  "admitted cfg req s = list_ex is_ledger_write (effects_of (ask_for_assets cfg req s))"

definition committed :: "config \<Rightarrow> request \<Rightarrow> faucet_state \<Rightarrow> bool" where
  "committed cfg req s =
     (admitted cfg req s \<and> IPRequest_save_raises req = None \<and> FaucetRequest_save_raises req = None)"

text \<open>The transfer of lines 305 to 316 goes through.\<close>

definition transfer_submitted :: "config \<Rightarrow> request \<Rightarrow> string \<Rightarrow> bool" where
  "transfer_submitted cfg req a =
     (case AddrStrToScriptHash req a of
        Inl e \<Rightarrow> False
      | Inr h \<Rightarrow>
          (case AddrStrToScriptHash req (faucet_wallet_addr cfg) of
             Inl e \<Rightarrow> False
           | Inr f \<Rightarrow>
               (case InvokeContract req of
                  Inl e \<Rightarrow> False
                | Inr (InvocationTransaction t) \<Rightarrow> True
                | Inr (Other v b) \<Rightarrow> False)))"

text \<open>
  A sequence of calls of \<^verbatim>\<open>/ask\<close>, one after the other, and the instants of the
  committed claims among those that satisfy \<open>P\<close>.
\<close>

fun run :: "config \<Rightarrow> request list \<Rightarrow> faucet_state \<Rightarrow> faucet_state" where
  "run cfg [] s = s"
| "run cfg (r # rs) s = run cfg rs (state_of (ask_for_assets cfg r s))"

fun committed_instants ::
  "config \<Rightarrow> (request \<Rightarrow> bool) \<Rightarrow> request list \<Rightarrow> faucet_state \<Rightarrow> instant list" where
  "committed_instants cfg P [] s = []"
| "committed_instants cfg P (r # rs) s =
     (if P r \<and> committed cfg r s then [now r] else [])
       @ committed_instants cfg P rs (state_of (ask_for_assets cfg r s))"


text \<open>
  A configuration, a request and a state to evaluate the handlers on: a request for
  wallet address \<open>address\<close> with the proxy header \<open>ip\<close> at the instant \<open>t\<close>, a faucet
  that holds 50000 tokens, and outside calls that all succeed.
\<close>

definition example_config :: config where
  "example_config =
     \<lparr>token_name = ''Example Token'', token_symbol = ''EXT'',
      token_script_hash = ''0123abcd'', faucet_wallet_addr = ''AFaucetWallet''\<rparr>"

definition example_request :: "string \<Rightarrow> string option \<Rightarrow> instant \<Rightarrow> request" where
  "example_request address ip t =
     \<lparr>args_address_to = Some [address], header_x_real_ip = ip, datetime_now = t,
      time_now = 1533600000, GetTokenBalance = Some 50000, Height = 2000000,
      WalletHeight = 100000, decode_utf8 = Inr, IPRequest_query_raises = None,
      FaucetRequest_query_raises = None, IPRequest_save_raises = None,
      FaucetRequest_save_raises = None, AddrStrToScriptHash = Inr,
      InvokeContract = Inr (InvocationTransaction \<lparr>ToJson = ''{}'', Hash = ''deadbeef''\<rparr>)\<rparr>"

definition fresh_state :: faucet_state where
  "fresh_state = \<lparr>IPRequest_table = [], FaucetRequest_table = [], sent_tx = None\<rparr>"


text \<open>
  What holds of a frame throughout \<^verbatim>\<open>ask_for_assets\<close>: the context has a message, which
  is neither \<^verbatim>\<open>None\<close> nor the text of line 322, and a response already returned is a
  redirect.
\<close>

definition message_set :: "frame \<Rightarrow> bool" where
  "message_set l =
     ((\<exists>m. ctx l ''message'' = Some m \<and> m \<noteq> PNone
           \<and> m \<noteq> PStr ''You must input a wallet address to proceed'')
      \<and> (case flow l of
            Returned r \<Rightarrow> message_of r = None
          | Raised e \<Rightarrow> True
          | Running \<Rightarrow> True))"


section \<open>The ledger count\<close>

lemma fold_count: "fold (\<lambda>item count. count + 1) xs (n::int) = n + int (length xs)"
  by (induction xs arbitrary: n) auto

lemma count_past_week_eq:
  "count_past_week tbl k pw =
     int (min 10 (length (filter (\<lambda>r. hash_key r = k \<and> pw < last_visited r) tbl)))"
  by (simp add: count_past_week_def query_def fold_count min.commute)

section \<open>The paths through \<^verbatim>\<open>ask_for_assets\<close>\<close>

lemma balance_test_symbol_ok:
  "symbol_ok cfg \<Longrightarrow> balance_test cfg req = Inr (balance req < 10000)"
  by (auto simp: symbol_ok_def balance_test_def get_context_def balance_def)

lemma ask_for_assets_unavailable:
  "balance_test cfg req = Inr True \<Longrightarrow>
     ask_for_assets cfg req s = (Redirect ''/'', s\<lparr>sent_tx := None\<rparr>, [])"
  by (simp add: ask_for_assets_def balance_test_def Let_def)

lemma ask_for_assets_unhandled:
  "balance_test cfg req = Inl e \<Longrightarrow>
     ask_for_assets cfg req s = (Unhandled e, s\<lparr>sent_tx := None\<rparr>, [])"
  by (simp add: ask_for_assets_def balance_test_def Let_def)

lemma ask_for_assets_checks:
  assumes "reaches_checks cfg req a"
  shows "ask_for_assets cfg req s =
           answer (then_do (then_do (IPRequest_block req (checks_frame cfg req s a))
                      (FaucetRequest_block req a)) (transaction_block cfg req a))"
proof -
  from assms have t: "balance_test cfg req = Inr False" and a: "form_address req = Some a"
    by (simp_all add: reaches_checks_def)
  from a obtain v vs b where "args_address_to req = Some (v # vs)"
    and "decode_utf8 req v = Inr b" and "a = strip b"
    by (auto simp: form_address_def split: option.splits list.splits sum.splits)
  with t show ?thesis
    by (simp add: ask_for_assets_def balance_test_def try_body_def checks_frame_def Let_def)
qed

lemma ask_for_assets_no_checks:
  assumes "\<forall>a. \<not> reaches_checks cfg req a"
  shows "state_of (ask_for_assets cfg req s) = s\<lparr>sent_tx := None\<rparr>
       \<and> effects_of (ask_for_assets cfg req s) = []"
proof (cases "balance_test cfg req")
  case (Inl e)
  then show ?thesis by (simp add: ask_for_assets_unhandled state_of_def effects_of_def)
next
  case (Inr b)
  show ?thesis
  proof (cases b)
    case True
    with Inr show ?thesis by (simp add: ask_for_assets_unavailable state_of_def effects_of_def)
  next
    case False
    with Inr assms have "form_address req = None"
      by (cases "form_address req") (auto simp: reaches_checks_def)
    with Inr False show ?thesis
      by (auto simp: ask_for_assets_def balance_test_def try_body_def form_address_def Let_def
          answer_def raise_def state_of_def effects_of_def
          split: option.splits list.splits sum.splits)
  qed
qed

text \<open>The five ways through the two checks, for a request that reaches them.\<close>

lemma ask_for_assets_ip_raises:
  assumes "reaches_checks cfg req a" and "IPRequest_query_raises req = Some e"
  shows "state_of (ask_for_assets cfg req s) = s\<lparr>sent_tx := None\<rparr>"
    and "effects_of (ask_for_assets cfg req s) = [Query_IPRequest (client_of req) (past_week req)]"
  using assms(2)
  by (simp_all add: ask_for_assets_checks [OF assms(1)] checks_frame_def then_do_def answer_def
      client_of_def IPRequest_block_def log_def raise_def Let_def state_of_def effects_of_def)

lemma ask_for_assets_ip_denied:
  assumes "reaches_checks cfg req a" and "IPRequest_query_raises req = None"
    and "3 \<le> ip_count req s"
  shows "ask_for_assets cfg req s =
     (Rendered ''index.html''
        ((get_context cfg req)
           (''error'' \<mapsto> PBool False, ''address_to'' \<mapsto> PStr a,
            ''message'' \<mapsto> PStr
               ''You have requested too many times for this time period. Try again next week.'',
            ''error'' \<mapsto> PBool True)),
      s\<lparr>sent_tx := None\<rparr>,
      [Query_IPRequest (client_of req) (past_week req)])"
  using assms(2-)
  by (simp add: ask_for_assets_checks [OF assms(1)] checks_frame_def then_do_def answer_def
      client_of_def ip_count_def IPRequest_block_def FaucetRequest_block_def
      transaction_block_def log_def raise_def Let_def)

lemma ask_for_assets_wallet_raises:
  assumes "reaches_checks cfg req a" and "IPRequest_query_raises req = None"
    and "ip_count req s < 3" and "FaucetRequest_query_raises req = Some e"
  shows "state_of (ask_for_assets cfg req s) = s\<lparr>sent_tx := None\<rparr>"
    and "effects_of (ask_for_assets cfg req s) =
          [Query_IPRequest (client_of req) (past_week req), Query_FaucetRequest a (past_week req)]"
  using assms(2-)
  by (simp_all add: ask_for_assets_checks [OF assms(1)] checks_frame_def then_do_def answer_def
      client_of_def ip_count_def IPRequest_block_def FaucetRequest_block_def
      log_def raise_def Let_def state_of_def effects_of_def)

lemma ask_for_assets_wallet_denied:
  assumes "reaches_checks cfg req a"
    and "IPRequest_query_raises req = None" and "FaucetRequest_query_raises req = None"
    and "ip_count req s < 3" and "1 \<le> wallet_count req a s"
  shows "ask_for_assets cfg req s =
     (Rendered ''index.html''
        ((get_context cfg req)
           (''error'' \<mapsto> PBool False, ''address_to'' \<mapsto> PStr a,
            ''message'' \<mapsto> PStr ''Already requested within the past week'',
            ''error'' \<mapsto> PBool True)),
      s\<lparr>sent_tx := None\<rparr>,
      [Query_IPRequest (client_of req) (past_week req), Query_FaucetRequest a (past_week req)])"
  using assms(2-)
  by (simp add: ask_for_assets_checks [OF assms(1)] checks_frame_def then_do_def answer_def
      client_of_def ip_count_def wallet_count_def IPRequest_block_def FaucetRequest_block_def
      transaction_block_def log_def raise_def Let_def)

text \<open>After both checks have admitted: the frame in which the transfer starts.\<close>

lemma checks_admit:
  assumes "IPRequest_query_raises req = None" and "FaucetRequest_query_raises req = None"
    and "ip_count req s < 3" and "wallet_count req a s < 1"
  shows "then_do (IPRequest_block req (checks_frame cfg req s a)) (FaucetRequest_block req a) =
     then_do
       (then_do
          (save_IPRequest req
             ((checks_frame cfg req s a)
                \<lparr>step := 1, client := Some (client_of req),
                 iprequest_item := Some (IPRequest (client_of req) (now req) (expire_date req)),
                 faucetrequest_item := Some (FaucetRequest a (now req) (expire_date req)),
                 effects := [Query_IPRequest (client_of req) (past_week req),
                             Query_FaucetRequest a (past_week req)]\<rparr>))
          (save_FaucetRequest req))
       (\<lambda>l. l\<lparr>step := step l + 1\<rparr>)"
  using assms
  by (simp add: checks_frame_def then_do_def client_of_def ip_count_def wallet_count_def
      IPRequest_block_def FaucetRequest_block_def log_def raise_def Let_def)


lemma checks_commit:
  assumes "IPRequest_query_raises req = None" and "FaucetRequest_query_raises req = None"
    and "ip_count req s < 3" and "wallet_count req a s < 1"
    and "IPRequest_save_raises req = None" and "FaucetRequest_save_raises req = None"
  shows "then_do (IPRequest_block req (checks_frame cfg req s a)) (FaucetRequest_block req a) =
     (checks_frame cfg req s a)
       \<lparr>step := 2, client := Some (client_of req),
        iprequest_item := Some (IPRequest (client_of req) (now req) (expire_date req)),
        faucetrequest_item := Some (FaucetRequest a (now req) (expire_date req)),
        self := s\<lparr>sent_tx := None,
                  IPRequest_table :=
                    save (IPRequest (client_of req) (now req) (expire_date req)) (IPRequest_table s),
                  FaucetRequest_table :=
                    save (FaucetRequest a (now req) (expire_date req)) (FaucetRequest_table s)\<rparr>,
        effects := [Query_IPRequest (client_of req) (past_week req),
                    Query_FaucetRequest a (past_week req),
                    Save_IPRequest (IPRequest (client_of req) (now req) (expire_date req)),
                    Save_FaucetRequest (FaucetRequest a (now req) (expire_date req))]\<rparr>"
  unfolding checks_admit [OF assms(1-4)] using assms(5,6)
  by (simp add: save_IPRequest_def save_FaucetRequest_def
      checks_frame_def then_do_def log_def raise_def Let_def)

text \<open>The transfer changes neither table and only adds effects.\<close>

lemma transaction_block_tables:
  "IPRequest_table (self (transaction_block cfg req a l)) = IPRequest_table (self l)
 \<and> FaucetRequest_table (self (transaction_block cfg req a l)) = FaucetRequest_table (self l)"
  by (auto simp: transaction_block_def make_tx_def raise_def log_def Let_def
      split: sum.splits option.splits tx_value.splits prod.splits)

lemma transaction_block_effects:
  "\<exists>es. effects (transaction_block cfg req a l) = effects l @ es \<and> \<not> list_ex is_ledger_write es
      \<and> \<not> list_ex is_ledger_read es"
  by (auto simp: transaction_block_def make_tx_def raise_def log_def Let_def
      split: sum.splits option.splits tx_value.splits prod.splits)

lemma answer_parts:
  "state_of (answer l) = self l" "effects_of (answer l) = effects l"
  by (simp_all add: answer_def state_of_def effects_of_def split: flow.splits)

lemma then_do_Running: "flow l = Running \<Longrightarrow> then_do l f = f l"
  by (simp add: then_do_def)

lemma then_do_stopped: "flow l \<noteq> Running \<Longrightarrow> then_do l f = l"
  by (cases "flow l") (simp_all add: then_do_def)

text \<open>What a committed claim leaves behind, whatever the transfer does.\<close>

lemma ask_for_assets_committed:
  assumes "reaches_checks cfg req a"
    and "IPRequest_query_raises req = None" and "FaucetRequest_query_raises req = None"
    and "ip_count req s < 3" and "wallet_count req a s < 1"
    and "IPRequest_save_raises req = None" and "FaucetRequest_save_raises req = None"
  shows "IPRequest_table (state_of (ask_for_assets cfg req s)) =
           save (IPRequest (client_of req) (now req) (expire_date req)) (IPRequest_table s)"
    and "FaucetRequest_table (state_of (ask_for_assets cfg req s)) =
           save (FaucetRequest a (now req) (expire_date req)) (FaucetRequest_table s)"
  unfolding ask_for_assets_checks [OF assms(1)] checks_commit [OF assms(2-)]
  by (simp_all add: answer_parts then_do_Running checks_frame_def transaction_block_tables)


text \<open>The checks alone: which table they leave, which effects they log.\<close>

lemma checks_IP_table:
  "IPRequest_table
     (self (then_do (IPRequest_block req (checks_frame cfg req s a)) (FaucetRequest_block req a)))
   \<in> {IPRequest_table s,
       save (IPRequest (client_of req) (now req) (expire_date req)) (IPRequest_table s)}"
  by (simp add: checks_frame_def then_do_def client_of_def IPRequest_block_def
      FaucetRequest_block_def save_IPRequest_def save_FaucetRequest_def log_def raise_def
      Let_def split: option.splits)

lemma checks_admit_effects:
  assumes "IPRequest_query_raises req = None" and "FaucetRequest_query_raises req = None"
    and "ip_count req s < 3" and "wallet_count req a s < 1"
  shows "list_ex is_ledger_write
     (effects (then_do (IPRequest_block req (checks_frame cfg req s a)) (FaucetRequest_block req a)))"
  unfolding checks_admit [OF assms]
  by (simp add: checks_frame_def then_do_def save_IPRequest_def save_FaucetRequest_def
      log_def raise_def Let_def split: option.splits)

lemma then_do_transaction_writes:
  "list_ex is_ledger_write (effects (then_do l (transaction_block cfg req a)))
     = list_ex is_ledger_write (effects l)"
proof (cases "flow l = Running")
  case True
  obtain es where "effects (transaction_block cfg req a l) = effects l @ es"
    and "\<not> list_ex is_ledger_write es"
    using transaction_block_effects by blast
  with True show ?thesis by (simp add: then_do_Running)
next
  case False
  then show ?thesis by (simp add: then_do_stopped)
qed

lemma then_do_transaction_tables:
  "IPRequest_table (self (then_do l (transaction_block cfg req a))) = IPRequest_table (self l)"
  "FaucetRequest_table (self (then_do l (transaction_block cfg req a))) = FaucetRequest_table (self l)"
  by (cases "flow l = Running"; simp add: then_do_Running then_do_stopped transaction_block_tables)+

text \<open>The rate limiter admits exactly below the two thresholds.\<close>

lemma admitted_iff:
  assumes "reaches_checks cfg req a"
    and "IPRequest_query_raises req = None" and "FaucetRequest_query_raises req = None"
  shows "admitted cfg req s \<longleftrightarrow> ip_count req s < 3 \<and> wallet_count req a s < 1"
proof (cases "ip_count req s < 3")
  case False
  then have "3 \<le> ip_count req s" by simp
  from ask_for_assets_ip_denied [OF assms(1,2) this] False show ?thesis
    by (simp add: admitted_def effects_of_def)
next
  case ip: True
  show ?thesis
  proof (cases "wallet_count req a s < 1")
    case False
    then have "1 \<le> wallet_count req a s" by simp
    from ask_for_assets_wallet_denied [OF assms ip this] False show ?thesis
      by (simp add: admitted_def effects_of_def)
  next
    case True
    from checks_admit_effects [OF assms(2,3) ip True] ip True show ?thesis
      by (simp add: admitted_def ask_for_assets_checks [OF assms(1)] answer_parts
          then_do_transaction_writes)
  qed
qed

text \<open>Without the checks nothing is written; so an admitted claim has passed them.\<close>

lemma admitted_reaches:
  assumes "admitted cfg req s"
  shows "\<exists>a. reaches_checks cfg req a"
proof (rule ccontr)
  assume "\<not> ?thesis"
  then have "effects_of (ask_for_assets cfg req s) = []"
    using ask_for_assets_no_checks by blast
  with assms show False by (simp add: admitted_def)
qed

lemma admitted_queries:
  assumes "reaches_checks cfg req a" and "admitted cfg req s"
  shows "IPRequest_query_raises req = None \<and> FaucetRequest_query_raises req = None
       \<and> ip_count req s < 3"
proof -
  have ip: "IPRequest_query_raises req = None"
  proof (cases "IPRequest_query_raises req")
    case (Some e)
    from ask_for_assets_ip_raises(2) [OF assms(1) Some] assms(2) show ?thesis
      by (simp add: admitted_def)
  qed simp
  have c: "ip_count req s < 3"
  proof (rule ccontr)
    assume "\<not> ip_count req s < 3"
    then have "3 \<le> ip_count req s" by simp
    from ask_for_assets_ip_denied [OF assms(1) ip this] assms(2) show False
      by (simp add: admitted_def effects_of_def)
  qed
  have "FaucetRequest_query_raises req = None"
  proof (cases "FaucetRequest_query_raises req")
    case (Some e)
    from ask_for_assets_wallet_raises(2) [OF assms(1) ip c Some] assms(2) show ?thesis
      by (simp add: admitted_def)
  qed simp
  with ip c show ?thesis by simp
qed

text \<open>A committed claim leaves its IP record in the table.\<close>

lemma committed_IP_record:
  assumes "committed cfg req s"
  shows "IPRequest (client_of req) (now req) (expire_date req)
           \<in> set (IPRequest_table (state_of (ask_for_assets cfg req s)))"
proof -
  from assms have adm: "admitted cfg req s" and sv: "IPRequest_save_raises req = None"
    "FaucetRequest_save_raises req = None"
    by (simp_all add: committed_def)
  from admitted_reaches [OF adm] obtain a where r: "reaches_checks cfg req a" ..
  from admitted_queries [OF r adm] have q: "IPRequest_query_raises req = None"
    "FaucetRequest_query_raises req = None" and ip: "ip_count req s < 3"
    by simp_all
  from admitted_iff [OF r q] adm have w: "wallet_count req a s < 1" by simp
  from ask_for_assets_committed(1) [OF r q ip w sv] show ?thesis
    by (simp add: save_def)
qed

text \<open>No call removes a key from the IP table.\<close>

lemma ask_for_assets_IP_table:
  "IPRequest_table (state_of (ask_for_assets cfg req s))
     \<in> {IPRequest_table s,
         save (IPRequest (client_of req) (now req) (expire_date req)) (IPRequest_table s)}"
proof (cases "\<exists>a. reaches_checks cfg req a")
  case True
  then obtain a where "reaches_checks cfg req a" ..
  from checks_IP_table [of req cfg s a] show ?thesis
    unfolding ask_for_assets_checks [OF \<open>reaches_checks cfg req a\<close>]
    by (simp only: answer_parts then_do_transaction_tables)
next
  case False
  then show ?thesis by (simp add: ask_for_assets_no_checks)
qed

lemma save_keeps_key:
  "r \<in> set tbl \<Longrightarrow> \<exists>r' \<in> set (save it tbl). same_key r' r"
  by (cases "same_key r it") (auto simp: save_def same_key_def)

lemma ask_for_assets_keeps_key:
  assumes "r \<in> set (IPRequest_table s)"
  shows "\<exists>r' \<in> set (IPRequest_table (state_of (ask_for_assets cfg req s))). same_key r' r"
proof -
  have "same_key r r" by (simp add: same_key_def)
  with assms save_keeps_key [OF assms] ask_for_assets_IP_table [of cfg req s] show ?thesis
    by auto
qed

lemma run_keeps_key:
  "r \<in> set (IPRequest_table s) \<Longrightarrow> \<exists>r' \<in> set (IPRequest_table (run cfg rs s)). same_key r' r"
proof (induction rs arbitrary: s r)
  case Nil
  then show ?case by (auto simp: same_key_def)
next
  case (Cons q rs)
  from ask_for_assets_keeps_key [OF Cons.prems] obtain r1
    where r1: "r1 \<in> set (IPRequest_table (state_of (ask_for_assets cfg q s)))" and k1: "same_key r1 r"
    by blast
  from Cons.IH [OF r1] obtain r2
    where "r2 \<in> set (IPRequest_table (run cfg rs (state_of (ask_for_assets cfg q s))))"
      and "same_key r2 r1"
    by blast
  with k1 show ?case by (auto simp: same_key_def)
qed

lemma committed_instants_in_table:
  assumes "t \<in> set (committed_instants cfg P rs s)" and "\<forall>r. P r \<longrightarrow> client_of r = ip"
  shows "\<exists>r \<in> set (IPRequest_table (run cfg rs s)). hash_key r = ip \<and> last_visited r = t"
  using assms(1)
proof (induction rs arbitrary: s)
  case Nil
  then show ?case by simp
next
  case (Cons q rs)
  show ?case
  proof (cases "t \<in> set (committed_instants cfg P rs (state_of (ask_for_assets cfg q s)))")
    case True
    from Cons.IH [OF True] show ?thesis by simp
  next
    case False
    with Cons.prems have q: "P q" "committed cfg q s" "t = now q"
      by (auto split: if_splits)
    from committed_IP_record [OF q(2)] run_keeps_key obtain r'
      where "r' \<in> set (IPRequest_table (run cfg rs (state_of (ask_for_assets cfg q s))))"
        and "same_key r' (IPRequest (client_of q) (now q) (expire_date q))"
      by blast
    with q assms(2) show ?thesis
      by (auto simp: same_key_def IPRequest_def)
  qed
qed

text \<open>Three records of one identity at three instants in the window: the count is at least 3.\<close>

lemma count_past_week_ge:
  assumes "\<forall>t \<in> T. \<exists>r \<in> set tbl. hash_key r = k \<and> last_visited r = t \<and> pw < t"
    and "finite T"
  shows "int (min 10 (card T)) \<le> count_past_week tbl k pw"
proof -
  let ?rs = "filter (\<lambda>r. hash_key r = k \<and> pw < last_visited r) tbl"
  from assms(1) have "T \<subseteq> last_visited ` set ?rs" by force
  then have "card T \<le> card (last_visited ` set ?rs)" by (simp add: card_mono)
  also have "\<dots> \<le> card (set ?rs)" by (simp add: card_image_le)
  also have "\<dots> \<le> length ?rs" by (rule card_length)
  finally show ?thesis by (simp add: count_past_week_eq)
qed

lemma quota_exhausted:
  assumes "reaches_checks cfg req a" and "IPRequest_query_raises req = None"
    and "\<forall>r. P r \<longrightarrow> client_of r = client_of req"
    and "3 \<le> card {t \<in> set (committed_instants cfg P rs s). past_week req < t}"
  shows "ask_for_assets cfg req (run cfg rs s) =
     (Rendered ''index.html''
        ((get_context cfg req)
           (''error'' \<mapsto> PBool False, ''address_to'' \<mapsto> PStr a,
            ''message'' \<mapsto> PStr
               ''You have requested too many times for this time period. Try again next week.'',
            ''error'' \<mapsto> PBool True)),
      (run cfg rs s)\<lparr>sent_tx := None\<rparr>,
      [Query_IPRequest (client_of req) (past_week req)])"
proof -
  let ?T = "{t \<in> set (committed_instants cfg P rs s). past_week req < t}"
  have "\<forall>t \<in> ?T. \<exists>r \<in> set (IPRequest_table (run cfg rs s)).
          hash_key r = client_of req \<and> last_visited r = t \<and> past_week req < t"
    using committed_instants_in_table [OF _ assms(3)] by blast
  then have "int (min 10 (card ?T)) \<le> ip_count req (run cfg rs s)"
    unfolding ip_count_def by (rule count_past_week_ge) simp
  with assms(4) have "3 \<le> ip_count req (run cfg rs s)" by simp
  with assms(1,2) show ?thesis by (rule ask_for_assets_ip_denied)
qed


section \<open>The transfer\<close>

lemma transaction_block_submitted:
  assumes "proceed l" and "step l = 2" and "flow l = Running"
    and "transfer_submitted cfg req a"
  shows "response_of (answer (transaction_block cfg req a l)) = Redirect ''/success''"
  using assms
  by (auto simp: transaction_block_def make_tx_def transfer_submitted_def answer_def
      response_of_def raise_def log_def Let_def split: sum.splits tx_value.splits)

lemma transaction_block_failed:
  assumes "proceed l" and "step l = 2" and "flow l = Running"
    and "\<not> transfer_submitted cfg req a"
  shows "\<exists>c. response_of (answer (transaction_block cfg req a l)) = Rendered ''index.html'' c
           \<and> c ''error'' = Some (PBool True)"
  using assms
  by (auto simp: transaction_block_def make_tx_def transfer_submitted_def answer_def
      response_of_def raise_def log_def Let_def split: sum.splits tx_value.splits)

lemma committed_checks:
  assumes "committed cfg req s" and "form_address req = Some a"
  shows "reaches_checks cfg req a \<and> IPRequest_query_raises req = None
       \<and> FaucetRequest_query_raises req = None \<and> ip_count req s < 3 \<and> wallet_count req a s < 1
       \<and> IPRequest_save_raises req = None \<and> FaucetRequest_save_raises req = None"
proof -
  from assms(1) have adm: "admitted cfg req s" and sv: "IPRequest_save_raises req = None"
    "FaucetRequest_save_raises req = None"
    by (simp_all add: committed_def)
  from admitted_reaches [OF adm] assms(2) have r: "reaches_checks cfg req a"
    by (auto simp: reaches_checks_def)
  from admitted_queries [OF r adm] have q: "IPRequest_query_raises req = None"
    "FaucetRequest_query_raises req = None" and ip: "ip_count req s < 3"
    by simp_all
  from admitted_iff [OF r q] adm have "wallet_count req a s < 1" by simp
  with r q ip sv show ?thesis by simp
qed

lemma ask_for_assets_transfer:
  assumes "committed cfg req s" and "form_address req = Some a"
  shows "transfer_submitted cfg req a \<Longrightarrow>
           response_of (ask_for_assets cfg req s) = Redirect ''/success''"
    and "\<not> transfer_submitted cfg req a \<Longrightarrow>
           \<exists>c. response_of (ask_for_assets cfg req s) = Rendered ''index.html'' c
              \<and> c ''error'' = Some (PBool True)"
proof -
  from committed_checks [OF assms] have r: "reaches_checks cfg req a"
    and c: "IPRequest_query_raises req = None" "FaucetRequest_query_raises req = None"
      "ip_count req s < 3" "wallet_count req a s < 1"
      "IPRequest_save_raises req = None" "FaucetRequest_save_raises req = None"
    by simp_all
  show "transfer_submitted cfg req a \<Longrightarrow>
           response_of (ask_for_assets cfg req s) = Redirect ''/success''"
    unfolding ask_for_assets_checks [OF r] checks_commit [OF c]
    by (simp add: then_do_Running checks_frame_def transaction_block_submitted)
  show "\<not> transfer_submitted cfg req a \<Longrightarrow>
           \<exists>c. response_of (ask_for_assets cfg req s) = Rendered ''index.html'' c
              \<and> c ''error'' = Some (PBool True)"
    unfolding ask_for_assets_checks [OF r] checks_commit [OF c]
    by (simp add: then_do_Running checks_frame_def transaction_block_failed)
qed

section \<open>Saving records\<close>

lemma fold_save_member:
  assumes "r \<in> set rs" and "distinct (map last_visited rs)"
  shows "r \<in> set (fold save rs tbl)"
  using assms
proof (induction rs arbitrary: tbl)
  case Nil
  then show ?case by simp
next
  case (Cons x rs)
  show ?case
  proof (cases "r \<in> set rs")
    case True
    with Cons show ?thesis by simp
  next
    case False
    with Cons.prems have "r = x" by simp
    have keep: "x \<in> set tbl' \<Longrightarrow> \<forall>y \<in> set ys. last_visited y \<noteq> last_visited x \<Longrightarrow>
        x \<in> set (fold save ys tbl')" for ys tbl'
      by (induction ys arbitrary: tbl') (auto simp: save_def same_key_def)
    from Cons.prems(2) have "last_visited x \<notin> last_visited ` set rs" by simp
    then have "\<forall>y \<in> set rs. last_visited y \<noteq> last_visited x" by (metis imageI)
    moreover have "x \<in> set (save x tbl)" by (simp add: save_def)
    ultimately have "x \<in> set (fold save rs (save x tbl))" by (simp add: keep)
    with \<open>r = x\<close> show ?thesis by simp
  qed
qed

lemma filter_save_elapsed:
  assumes "\<not> (hash_key it = k \<and> pw < last_visited it)"
  shows "filter (\<lambda>r. hash_key r = k \<and> pw < last_visited r) (save it tbl)
       = filter (\<lambda>r. hash_key r = k \<and> pw < last_visited r) tbl"
proof -
  have "filter (\<lambda>r. (hash_key r = k \<and> pw < last_visited r) \<and> \<not> same_key r it) tbl
      = filter (\<lambda>r. hash_key r = k \<and> pw < last_visited r) tbl"
    using assms by (intro filter_cong) (auto simp: same_key_def)
  with assms show ?thesis by (simp add: save_def conj_commute)
qed

lemma count_fold_save_elapsed:
  assumes "\<forall>r \<in> set rs. last_visited r \<le> pw"
  shows "count_past_week (fold save rs tbl) k pw = count_past_week tbl k pw"
  using assms
proof (induction rs arbitrary: tbl)
  case Nil
  then show ?case by simp
next
  case (Cons x rs)
  then have "\<not> (hash_key x = k \<and> pw < last_visited x)" by simp
  then have "count_past_week (save x tbl) k pw = count_past_week tbl k pw"
    by (simp add: count_past_week_eq filter_save_elapsed)
  with Cons show ?case by simp
qed

lemma count_past_week_le_10: "count_past_week tbl k pw \<le> 10"
  by (simp add: count_past_week_eq)

section \<open>The first effect of a request that reaches the checks\<close>

lemma checks_first_effect:
  "\<exists>es. effects (then_do (IPRequest_block req (checks_frame cfg req s a)) (FaucetRequest_block req a))
          = Query_IPRequest (client_of req) (past_week req) # es"
  by (simp add: checks_frame_def then_do_def client_of_def IPRequest_block_def
      FaucetRequest_block_def save_IPRequest_def save_FaucetRequest_def log_def raise_def
      Let_def split: option.splits)

lemma ask_for_assets_first_effect:
  assumes "reaches_checks cfg req a"
  shows "\<exists>es. effects_of (ask_for_assets cfg req s)
           = Query_IPRequest (client_of req) (past_week req) # es"
proof -
  let ?l = "then_do (IPRequest_block req (checks_frame cfg req s a)) (FaucetRequest_block req a)"
  obtain es where es: "effects ?l = Query_IPRequest (client_of req) (past_week req) # es"
    using checks_first_effect by blast
  show ?thesis
  proof (cases "flow ?l = Running")
    case True
    obtain es' where "effects (transaction_block cfg req a ?l) = effects ?l @ es'"
      using transaction_block_effects by blast
    with True es show ?thesis
      by (simp add: ask_for_assets_checks [OF assms] answer_parts then_do_Running)
  next
    case False
    with es show ?thesis
      by (simp add: ask_for_assets_checks [OF assms] answer_parts then_do_stopped)
  qed
qed

section \<open>Rejected claims\<close>

lemma not_admitted_state:
  assumes "\<not> admitted cfg req s"
  shows "state_of (ask_for_assets cfg req s) = s\<lparr>sent_tx := None\<rparr>"
proof (cases "\<exists>a. reaches_checks cfg req a")
  case False
  then show ?thesis by (simp add: ask_for_assets_no_checks)
next
  case True
  then obtain a where r: "reaches_checks cfg req a" ..
  show ?thesis
  proof (cases "IPRequest_query_raises req")
    case (Some e)
    with r show ?thesis by (simp add: ask_for_assets_ip_raises)
  next
    case ipq: None
    show ?thesis
    proof (cases "ip_count req s < 3")
      case False
      then have "3 \<le> ip_count req s" by simp
      from ask_for_assets_ip_denied [OF r ipq this] show ?thesis by (simp add: state_of_def)
    next
      case ip: True
      show ?thesis
      proof (cases "FaucetRequest_query_raises req")
        case (Some e)
        with r ipq ip show ?thesis by (simp add: ask_for_assets_wallet_raises)
      next
        case wq: None
        from admitted_iff [OF r ipq wq] assms ip have "1 \<le> wallet_count req a s" by simp
        from ask_for_assets_wallet_denied [OF r ipq wq ip this] show ?thesis
          by (simp add: state_of_def)
      qed
    qed
  qed
qed

section \<open>The example request\<close>

lemma example_request_reaches:
  "reaches_checks example_config (example_request address ip t) (strip address)"
  by (simp add: reaches_checks_def balance_test_def form_address_def get_context_def
      example_config_def example_request_def)

lemma example_request_reads:
  "past_week (example_request address ip t) = t - 604800000000"
  "now (example_request address ip t) = t"
  "expire_date (example_request address ip t) = 1534204800"
  "client_of (example_request address ip t) = str_header ip"
  "form_address (example_request address ip t) = Some (strip address)"
  "IPRequest_query_raises (example_request address ip t) = None"
  "FaucetRequest_query_raises (example_request address ip t) = None"
  "IPRequest_save_raises (example_request address ip t) = None"
  "FaucetRequest_save_raises (example_request address ip t) = None"
  "AddrStrToScriptHash (example_request address ip t) x = Inr x"
  "InvokeContract (example_request address ip t) =
     Inr (InvocationTransaction \<lparr>ToJson = ''{}'', Hash = ''deadbeef''\<rparr>)"
  by (simp_all add: past_week_def now_def timedelta_days_def expire_date_def week_in_sec_def
      client_of_def form_address_def example_request_def)

lemma strip_example: "strip ''AWallet1'' = ''AWallet1''" "strip ''AWallet2'' = ''AWallet2''"
  "strip ''AWallet3'' = ''AWallet3''" "strip ''AWallet4'' = ''AWallet4''" "strip ''   '' = ''''"
  by (simp_all add: strip_def isspace_def)


section \<open>A record in the window is counted\<close>

lemma record_in_window_counts:
  assumes "it \<in> set tbl" and "pw < last_visited it"
  shows "1 \<le> count_past_week tbl (hash_key it) pw"
proof -
  let ?rs = "filter (\<lambda>r. hash_key r = hash_key it \<and> pw < last_visited r) tbl"
  from assms have "it \<in> set ?rs" by simp
  then have "0 < length ?rs" by (simp only: length_pos_if_in_set)
  then have "1 \<le> length ?rs" by linarith
  then show ?thesis by (simp add: count_past_week_eq)
qed


section \<open>The example request on a state that admits it\<close>

lemma example_request_succeeds:
  assumes "ip_count (example_request address ip t) s < 3"
    and "wallet_count (example_request address ip t) (strip address) s < 1"
  shows "ask_for_assets example_config (example_request address ip t) s =
     (Redirect ''/success'',
      \<lparr>IPRequest_table = save (IPRequest (str_header ip) t 1534204800) (IPRequest_table s),
       FaucetRequest_table = save (FaucetRequest (strip address) t 1534204800) (FaucetRequest_table s),
       sent_tx = Some (InvocationTransaction \<lparr>ToJson = ''{}'', Hash = ''deadbeef''\<rparr>)\<rparr>,
      [Query_IPRequest (str_header ip) (t - 604800000000),
       Query_FaucetRequest (strip address) (t - 604800000000),
       Save_IPRequest (IPRequest (str_header ip) t 1534204800),
       Save_FaucetRequest (FaucetRequest (strip address) t 1534204800),
       Invoke_transfer ''AFaucetWallet'' (strip address) 1000000000000])"
proof -
  let ?req = "example_request address ip t"
  have c: "IPRequest_query_raises ?req = None" "FaucetRequest_query_raises ?req = None"
    "ip_count ?req s < 3" "wallet_count ?req (strip address) s < 1"
    "IPRequest_save_raises ?req = None" "FaucetRequest_save_raises ?req = None"
    using assms by (simp_all add: example_request_reads)
  have w: "faucet_wallet_addr example_config = ''AFaucetWallet''"
    by (simp add: example_config_def)
  show ?thesis
    unfolding ask_for_assets_checks [OF example_request_reaches] checks_commit [OF c]
    by (cases s)
      (simp add: example_request_reads w then_do_def checks_frame_def transaction_block_def
        make_tx_def answer_def log_def raise_def)
qed

lemma example_request_committed:
  assumes "ip_count (example_request address ip t) s < 3"
    and "wallet_count (example_request address ip t) (strip address) s < 1"
  shows "committed example_config (example_request address ip t) s"
  unfolding committed_def admitted_def example_request_succeeds [OF assms]
  by (simp add: effects_of_def example_request_reads)

section \<open>The message of line 322\<close>

lemma get_context_message:
  "\<exists>m. get_context cfg req ''message'' = Some m \<and> m \<noteq> PNone
      \<and> m \<noteq> PStr ''You must input a wallet address to proceed''"
  by (simp add: get_context_def Let_def)

lemma IPRequest_block_message: "message_set l \<Longrightarrow> message_set (IPRequest_block req l)"
  by (auto simp: message_set_def IPRequest_block_def log_def raise_def Let_def
      split: option.splits)

lemma FaucetRequest_block_message:
  "message_set l \<Longrightarrow> message_set (FaucetRequest_block req a l)"
  by (auto simp: message_set_def FaucetRequest_block_def save_IPRequest_def
      save_FaucetRequest_def then_do_def log_def raise_def Let_def
      split: option.splits flow.splits)

lemma transaction_block_message:
  "message_set l \<Longrightarrow> message_set (transaction_block cfg req a l)"
  by (auto simp: message_set_def transaction_block_def make_tx_def log_def raise_def Let_def
      split: option.splits sum.splits tx_value.splits)

lemma then_do_message:
  "message_set l \<Longrightarrow> (\<And>l. message_set l \<Longrightarrow> message_set (f l)) \<Longrightarrow> message_set (then_do l f)"
  by (simp add: then_do_def split: flow.splits)

lemma try_body_message: "message_set l \<Longrightarrow> message_set (try_body cfg req l)"
  by (auto simp: try_body_def Let_def raise_def
      intro!: then_do_message IPRequest_block_message FaucetRequest_block_message
        transaction_block_message
      split: option.splits list.splits sum.splits)
    (simp_all add: message_set_def)

lemma answer_message:
  "message_set l \<Longrightarrow>
     message_of (response_of (answer l)) \<noteq> Some (PStr ''You must input a wallet address to proceed'')"
  by (auto simp: message_set_def answer_def response_of_def split: flow.splits)

lemma ask_for_assets_message:
  "message_of (response_of (ask_for_assets cfg req s))
     \<noteq> Some (PStr ''You must input a wallet address to proceed'')"
proof (cases "balance_test cfg req")
  case (Inl e)
  then show ?thesis by (simp add: ask_for_assets_unhandled response_of_def)
next
  case (Inr b)
  show ?thesis
  proof (cases b)
    case True
    with Inr show ?thesis by (simp add: ask_for_assets_unavailable response_of_def)
  next
    case False
    let ?l = "\<lparr>ctx = (get_context cfg req)(''error'' \<mapsto> PBool False), proceed = True,
               step = 0, client = None, iprequest_item = None, faucetrequest_item = None,
               self = s\<lparr>sent_tx := None\<rparr>, effects = [], flow = Running\<rparr>"
    have "message_set ?l"
      using get_context_message [of cfg req] by (simp add: message_set_def)
    then have "message_set (try_body cfg req ?l)" by (rule try_body_message)
    then have "message_of (response_of (answer (try_body cfg req ?l)))
        \<noteq> Some (PStr ''You must input a wallet address to proceed'')"
      by (rule answer_message)
    moreover from Inr False have "ask_for_assets cfg req s = answer (try_body cfg req ?l)"
      by (simp add: ask_for_assets_def balance_test_def Let_def)
    ultimately show ?thesis by simp
  qed
qed

section \<open>A failed write of the IP record\<close>

lemma ask_for_assets_ip_save_raises:
  assumes "reaches_checks cfg req a"
    and "IPRequest_query_raises req = None" and "FaucetRequest_query_raises req = None"
    and "ip_count req s < 3" and "wallet_count req a s < 1"
    and "IPRequest_save_raises req = Some e"
  shows "state_of (ask_for_assets cfg req s) = s\<lparr>sent_tx := None\<rparr>"
proof -
  let ?l = "then_do (IPRequest_block req (checks_frame cfg req s a)) (FaucetRequest_block req a)"
  have "flow ?l = Raised e \<and> self ?l = s\<lparr>sent_tx := None\<rparr>"
    unfolding checks_admit [OF assms(2-5)] using assms(6)
    by (simp add: save_IPRequest_def checks_frame_def then_do_def log_def raise_def Let_def)
  then show ?thesis
    by (simp add: ask_for_assets_checks [OF assms(1)] answer_parts then_do_stopped)
qed

section \<open>Properties of the specification\<close>

text \<open>
  C1. Each of the two rate-limit checks admits exactly when the count it observes is
  strictly below its threshold, 3 for the IP address and 1 for the wallet address. For a
  request that reaches the checks and whose two ledger reads succeed: the wallet ledger
  is consulted (the IP check has admitted) if and only if the IP count is below 3, and the
  claim is admitted (the handler goes on to write the records) if and only if moreover
  the wallet count is below 1. So with the wallet threshold a first claim (count 0) is
  admitted and a second one in the window (count 1) is not; with the IP threshold claims
  one to three (counts 0, 1, 2) pass and the fourth (count 3) does not.
\<close>

theorem rate_limit_threshold:
  assumes "reaches_checks cfg req a"
    and "IPRequest_query_raises req = None" and "FaucetRequest_query_raises req = None"
  shows "(list_ex is_wallet_query (effects_of (ask_for_assets cfg req s)) \<longleftrightarrow> ip_count req s < 3)
       \<and> (admitted cfg req s \<longleftrightarrow> ip_count req s < 3 \<and> wallet_count req a s < 1)"
proof -
  have "list_ex is_wallet_query (effects_of (ask_for_assets cfg req s)) \<longleftrightarrow> ip_count req s < 3"
  proof (cases "ip_count req s < 3")
    case False
    then have "3 \<le> ip_count req s" by simp
    from ask_for_assets_ip_denied [OF assms(1,2) this] False show ?thesis
      by (simp add: effects_of_def)
  next
    case ip: True
    show ?thesis
    proof (cases "wallet_count req a s < 1")
      case False
      then have "1 \<le> wallet_count req a s" by simp
      from ask_for_assets_wallet_denied [OF assms ip this] ip show ?thesis
        by (simp add: effects_of_def)
    next
      case True
      let ?l = "then_do (IPRequest_block req (checks_frame cfg req s a)) (FaucetRequest_block req a)"
      have "list_ex is_wallet_query (effects ?l)"
        unfolding checks_admit [OF assms(2,3) ip True]
        by (simp add: checks_frame_def then_do_def save_IPRequest_def save_FaucetRequest_def
            log_def raise_def Let_def split: option.splits)
      moreover have "\<exists>es. effects (then_do ?l (transaction_block cfg req a)) = effects ?l @ es"
      proof (cases "flow ?l = Running")
        case True
        with transaction_block_effects [of cfg req a ?l] show ?thesis
          by (auto simp: then_do_Running)
      next
        case False
        then show ?thesis by (simp add: then_do_stopped)
      qed
      ultimately show ?thesis
        using ip by (auto simp: ask_for_assets_checks [OF assms(1)] answer_parts)
    qed
  qed
  with admitted_iff [OF assms] show ?thesis by simp
qed

theorem rate_limit_threshold_witness:
  "reaches_checks example_config
     (example_request ''AWallet1'' (Some ''1.2.3.4'') 1533600000000000) ''AWallet1''
 \<and> ip_count (example_request ''AWallet1'' (Some ''1.2.3.4'') 1533600000000000) fresh_state = 0
 \<and> wallet_count (example_request ''AWallet1'' (Some ''1.2.3.4'') 1533600000000000) ''AWallet1''
      fresh_state = 0
 \<and> admitted example_config
      (example_request ''AWallet1'' (Some ''1.2.3.4'') 1533600000000000) fresh_state
 \<and> wallet_count (example_request ''AWallet1'' (Some ''5.6.7.8'') 1533686400000000) ''AWallet1''
      (state_of (ask_for_assets example_config
         (example_request ''AWallet1'' (Some ''1.2.3.4'') 1533600000000000) fresh_state)) = 1
 \<and> \<not> admitted example_config
      (example_request ''AWallet1'' (Some ''5.6.7.8'') 1533686400000000)
      (state_of (ask_for_assets example_config
         (example_request ''AWallet1'' (Some ''1.2.3.4'') 1533600000000000) fresh_state))
 \<and> ip_count (example_request ''AWallet4'' (Some ''1.2.3.4'') 1533859200000000)
      \<lparr>IPRequest_table = [IPRequest ''1.2.3.4'' 1533600000000000 1534204800,
                          IPRequest ''1.2.3.4'' 1533686400000000 1534204800,
                          IPRequest ''1.2.3.4'' 1533772800000000 1534204800],
       FaucetRequest_table = [FaucetRequest ''AWallet1'' 1533600000000000 1534204800,
                              FaucetRequest ''AWallet2'' 1533686400000000 1534204800,
                              FaucetRequest ''AWallet3'' 1533772800000000 1534204800],
       sent_tx = None\<rparr> = 3
 \<and> \<not> list_ex is_wallet_query (effects_of (ask_for_assets example_config
      (example_request ''AWallet4'' (Some ''1.2.3.4'') 1533859200000000)
      \<lparr>IPRequest_table = [IPRequest ''1.2.3.4'' 1533600000000000 1534204800,
                          IPRequest ''1.2.3.4'' 1533686400000000 1534204800,
                          IPRequest ''1.2.3.4'' 1533772800000000 1534204800],
       FaucetRequest_table = [FaucetRequest ''AWallet1'' 1533600000000000 1534204800,
                              FaucetRequest ''AWallet2'' 1533686400000000 1534204800,
                              FaucetRequest ''AWallet3'' 1533772800000000 1534204800],
       sent_tx = None\<rparr>))"
proof -
  let ?r1 = "example_request ''AWallet1'' (Some ''1.2.3.4'') 1533600000000000"
  let ?r2 = "example_request ''AWallet1'' (Some ''5.6.7.8'') 1533686400000000"
  let ?r4 = "example_request ''AWallet4'' (Some ''1.2.3.4'') 1533859200000000"
  let ?s1 = "state_of (ask_for_assets example_config ?r1 fresh_state)"
  let ?s3 = "\<lparr>IPRequest_table = [IPRequest ''1.2.3.4'' 1533600000000000 1534204800,
                          IPRequest ''1.2.3.4'' 1533686400000000 1534204800,
                          IPRequest ''1.2.3.4'' 1533772800000000 1534204800],
       FaucetRequest_table = [FaucetRequest ''AWallet1'' 1533600000000000 1534204800,
                              FaucetRequest ''AWallet2'' 1533686400000000 1534204800,
                              FaucetRequest ''AWallet3'' 1533772800000000 1534204800],
       sent_tx = None\<rparr>"
  have r1: "reaches_checks example_config ?r1 ''AWallet1''"
    and r2: "reaches_checks example_config ?r2 ''AWallet1''"
    and r4: "reaches_checks example_config ?r4 ''AWallet4''"
    using example_request_reaches [of "''AWallet1''"] example_request_reaches [of "''AWallet4''"]
    by (simp_all add: strip_example)
  have q: "IPRequest_query_raises (example_request address ip t) = None"
    "FaucetRequest_query_raises (example_request address ip t) = None" for address ip t
    by (simp_all add: example_request_reads)
  have c1: "ip_count ?r1 fresh_state = 0" "wallet_count ?r1 ''AWallet1'' fresh_state = 0"
    by (simp_all add: ip_count_def wallet_count_def count_past_week_eq fresh_state_def)
  then have "ip_count ?r1 fresh_state < 3" "wallet_count ?r1 (strip ''AWallet1'') fresh_state < 1"
    by (simp_all add: strip_example)
  then have s1: "?s1 =
      \<lparr>IPRequest_table = [IPRequest ''1.2.3.4'' 1533600000000000 1534204800],
       FaucetRequest_table = [FaucetRequest ''AWallet1'' 1533600000000000 1534204800],
       sent_tx = Some (InvocationTransaction \<lparr>ToJson = ''{}'', Hash = ''deadbeef''\<rparr>)\<rparr>"
    by (simp add: example_request_succeeds state_of_def save_def strip_example fresh_state_def)
  have c2: "ip_count ?r2 ?s1 = 0" "wallet_count ?r2 ''AWallet1'' ?s1 = 1"
    unfolding s1
    by (simp_all add: ip_count_def wallet_count_def count_past_week_eq example_request_reads
        IPRequest_def FaucetRequest_def)
  have c4: "ip_count ?r4 ?s3 = 3"
    by (simp add: ip_count_def count_past_week_eq example_request_reads IPRequest_def)
  from rate_limit_threshold [OF r1 q, of fresh_state] c1
  have a1: "admitted example_config ?r1 fresh_state" by simp
  from rate_limit_threshold [OF r2 q, of ?s1] c2
  have a2: "\<not> admitted example_config ?r2 ?s1" by simp
  from rate_limit_threshold [OF r4 q, of ?s3] c4
  have a4: "\<not> list_ex is_wallet_query (effects_of (ask_for_assets example_config ?r4 ?s3))"
    by simp
  from r1 c1 a1 c2(2) a2 c4 a4 show ?thesis by (simp only: simp_thms)
qed


text \<open>
  C2 (as amended). The count of both checks is taken since the instant \<open>now\<close> minus seven
  days, and it is the number of records of the identity whose \<^verbatim>\<open>last_visited\<close> is strictly
  later than that instant, capped at 10. A record exactly at the instant is not counted:
  putting one into the table leaves the count as it is.
\<close>

theorem count_is_strictly_after:
  "past_week req = datetime_now req - 604800000000
 \<and> ip_count req s =
     int (min 10 (length (filter (\<lambda>r. hash_key r = client_of req \<and> past_week req < last_visited r)
                           (IPRequest_table s))))
 \<and> wallet_count req a s =
     int (min 10 (length (filter (\<lambda>r. hash_key r = a \<and> past_week req < last_visited r)
                           (FaucetRequest_table s))))
 \<and> count_past_week (r\<lparr>last_visited := past_week req\<rparr> # tbl) k (past_week req) =
     count_past_week tbl k (past_week req)"
  by (simp add: past_week_def now_def timedelta_days_def ip_count_def wallet_count_def
      count_past_week_eq)

text \<open>
  With "greater than or equal" the property does not hold. A wallet whose only record is
  exactly seven days old (its timestamp equals \<open>now\<close> minus the window, so it is not
  earlier than that instant) is counted 0 times, and its request is admitted.
\<close>

theorem count_at_window_start_counterexample:
  "past_week (example_request ''AWallet1'' (Some ''1.2.3.4'') 1533600000000000)
     \<le> last_visited (FaucetRequest ''AWallet1'' 1532995200000000 1533600000)
 \<and> wallet_count (example_request ''AWallet1'' (Some ''1.2.3.4'') 1533600000000000) ''AWallet1''
      \<lparr>IPRequest_table = [IPRequest ''1.2.3.4'' 1532995200000000 1533600000],
       FaucetRequest_table = [FaucetRequest ''AWallet1'' 1532995200000000 1533600000],
       sent_tx = None\<rparr> = 0
 \<and> admitted example_config (example_request ''AWallet1'' (Some ''1.2.3.4'') 1533600000000000)
      \<lparr>IPRequest_table = [IPRequest ''1.2.3.4'' 1532995200000000 1533600000],
       FaucetRequest_table = [FaucetRequest ''AWallet1'' 1532995200000000 1533600000],
       sent_tx = None\<rparr>"
proof -
  let ?req = "example_request ''AWallet1'' (Some ''1.2.3.4'') 1533600000000000"
  let ?s = "\<lparr>IPRequest_table = [IPRequest ''1.2.3.4'' 1532995200000000 1533600000],
       FaucetRequest_table = [FaucetRequest ''AWallet1'' 1532995200000000 1533600000],
       sent_tx = None\<rparr>"
  have pw: "past_week ?req = 1532995200000000"
    by (simp add: example_request_reads)
  have r: "reaches_checks example_config ?req ''AWallet1''"
    using example_request_reaches [of "''AWallet1''"] by (simp add: strip_example)
  have q: "IPRequest_query_raises ?req = None" "FaucetRequest_query_raises ?req = None"
    by (simp_all add: example_request_reads)
  have c: "ip_count ?req ?s = 0" "wallet_count ?req ''AWallet1'' ?s = 0"
    by (simp_all add: ip_count_def wallet_count_def count_past_week_eq example_request_reads
        IPRequest_def FaucetRequest_def)
  from admitted_iff [OF r q, of ?s] c have "admitted example_config ?req ?s" by simp
  with c pw show ?thesis by (simp add: FaucetRequest_def)
qed

text \<open>
  C3. For a request that reaches the checks and whose ledger reads succeed. If it passes
  the IP check and is denied by the wallet check, it writes no record: both tables are as
  before, the effects are the two queries and no write, the page shows the wallet's
  denial, and the IP count of any later request is what it was, so the denied attempt has
  used up none of the IP quota. And in every case the two records go together: unless the
  write of the wallet record itself fails, either both tables are as before, or the claim
  was admitted by both checks and each table has its record saved.
\<close>

theorem wallet_denial_writes_nothing:
  assumes "reaches_checks cfg req a"
    and "IPRequest_query_raises req = None" and "FaucetRequest_query_raises req = None"
  shows "(ip_count req s < 3 \<and> 1 \<le> wallet_count req a s \<longrightarrow>
            IPRequest_table (state_of (ask_for_assets cfg req s)) = IPRequest_table s
          \<and> FaucetRequest_table (state_of (ask_for_assets cfg req s)) = FaucetRequest_table s
          \<and> effects_of (ask_for_assets cfg req s) =
              [Query_IPRequest (client_of req) (past_week req),
               Query_FaucetRequest a (past_week req)]
          \<and> \<not> list_ex is_ledger_write (effects_of (ask_for_assets cfg req s))
          \<and> message_of (response_of (ask_for_assets cfg req s)) =
              Some (PStr ''Already requested within the past week'')
          \<and> error_of (response_of (ask_for_assets cfg req s)) = Some (PBool True)
          \<and> ip_count req' (state_of (ask_for_assets cfg req s)) = ip_count req' s)
       \<and> (FaucetRequest_save_raises req = None \<longrightarrow>
            IPRequest_table (state_of (ask_for_assets cfg req s)) = IPRequest_table s
            \<and> FaucetRequest_table (state_of (ask_for_assets cfg req s)) = FaucetRequest_table s
          \<or> admitted cfg req s
            \<and> IPRequest_table (state_of (ask_for_assets cfg req s)) =
                save (IPRequest (client_of req) (now req) (expire_date req)) (IPRequest_table s)
            \<and> FaucetRequest_table (state_of (ask_for_assets cfg req s)) =
                save (FaucetRequest a (now req) (expire_date req)) (FaucetRequest_table s))"
proof -
  let ?s' = "state_of (ask_for_assets cfg req s)"
  have denied: "IPRequest_table ?s' = IPRequest_table s
          \<and> FaucetRequest_table ?s' = FaucetRequest_table s
          \<and> effects_of (ask_for_assets cfg req s) =
              [Query_IPRequest (client_of req) (past_week req),
               Query_FaucetRequest a (past_week req)]
          \<and> \<not> list_ex is_ledger_write (effects_of (ask_for_assets cfg req s))
          \<and> message_of (response_of (ask_for_assets cfg req s)) =
              Some (PStr ''Already requested within the past week'')
          \<and> error_of (response_of (ask_for_assets cfg req s)) = Some (PBool True)
          \<and> ip_count req' ?s' = ip_count req' s"
    if "ip_count req s < 3" and "1 \<le> wallet_count req a s"
    unfolding ask_for_assets_wallet_denied [OF assms that]
    by (simp add: state_of_def effects_of_def response_of_def ip_count_def)
  have together: "IPRequest_table ?s' = IPRequest_table s
            \<and> FaucetRequest_table ?s' = FaucetRequest_table s
          \<or> admitted cfg req s
            \<and> IPRequest_table ?s' =
                save (IPRequest (client_of req) (now req) (expire_date req)) (IPRequest_table s)
            \<and> FaucetRequest_table ?s' =
                save (FaucetRequest a (now req) (expire_date req)) (FaucetRequest_table s)"
    if w: "FaucetRequest_save_raises req = None"
  proof (cases "admitted cfg req s")
    case False
    from not_admitted_state [OF this] show ?thesis by simp
  next
    case True
    with admitted_iff [OF assms] have c: "ip_count req s < 3" "wallet_count req a s < 1"
      by simp_all
    show ?thesis
    proof (cases "IPRequest_save_raises req")
      case (Some e)
      from ask_for_assets_ip_save_raises [OF assms c this] show ?thesis by simp
    next
      case None
      from ask_for_assets_committed [OF assms c None w] True show ?thesis by simp
    qed
  qed
  from denied together show ?thesis by blast
qed

theorem wallet_denial_writes_nothing_witness:
  "reaches_checks example_config
     (example_request ''AWallet1'' (Some ''5.6.7.8'') 1533686400000000) ''AWallet1''
 \<and> ip_count (example_request ''AWallet1'' (Some ''5.6.7.8'') 1533686400000000)
      \<lparr>IPRequest_table = [IPRequest ''1.2.3.4'' 1533600000000000 1534204800],
       FaucetRequest_table = [FaucetRequest ''AWallet1'' 1533600000000000 1534204800],
       sent_tx = None\<rparr> = 0
 \<and> wallet_count (example_request ''AWallet1'' (Some ''5.6.7.8'') 1533686400000000) ''AWallet1''
      \<lparr>IPRequest_table = [IPRequest ''1.2.3.4'' 1533600000000000 1534204800],
       FaucetRequest_table = [FaucetRequest ''AWallet1'' 1533600000000000 1534204800],
       sent_tx = None\<rparr> = 1
 \<and> IPRequest_table (state_of (ask_for_assets example_config
      (example_request ''AWallet1'' (Some ''5.6.7.8'') 1533686400000000)
      \<lparr>IPRequest_table = [IPRequest ''1.2.3.4'' 1533600000000000 1534204800],
       FaucetRequest_table = [FaucetRequest ''AWallet1'' 1533600000000000 1534204800],
       sent_tx = None\<rparr>)) = [IPRequest ''1.2.3.4'' 1533600000000000 1534204800]
 \<and> FaucetRequest_table (state_of (ask_for_assets example_config
      (example_request ''AWallet1'' (Some ''5.6.7.8'') 1533686400000000)
      \<lparr>IPRequest_table = [IPRequest ''1.2.3.4'' 1533600000000000 1534204800],
       FaucetRequest_table = [FaucetRequest ''AWallet1'' 1533600000000000 1534204800],
       sent_tx = None\<rparr>)) = [FaucetRequest ''AWallet1'' 1533600000000000 1534204800]
 \<and> message_of (response_of (ask_for_assets example_config
      (example_request ''AWallet1'' (Some ''5.6.7.8'') 1533686400000000)
      \<lparr>IPRequest_table = [IPRequest ''1.2.3.4'' 1533600000000000 1534204800],
       FaucetRequest_table = [FaucetRequest ''AWallet1'' 1533600000000000 1534204800],
       sent_tx = None\<rparr>)) = Some (PStr ''Already requested within the past week'')"
proof -
  let ?req = "example_request ''AWallet1'' (Some ''5.6.7.8'') 1533686400000000"
  let ?s = "\<lparr>IPRequest_table = [IPRequest ''1.2.3.4'' 1533600000000000 1534204800],
       FaucetRequest_table = [FaucetRequest ''AWallet1'' 1533600000000000 1534204800],
       sent_tx = None\<rparr>"
  have r: "reaches_checks example_config ?req ''AWallet1''"
    using example_request_reaches [of "''AWallet1''"] by (simp add: strip_example)
  have q: "IPRequest_query_raises ?req = None" "FaucetRequest_query_raises ?req = None"
    by (simp_all add: example_request_reads)
  have c: "ip_count ?req ?s = 0" "wallet_count ?req ''AWallet1'' ?s = 1"
    by (simp_all add: ip_count_def wallet_count_def count_past_week_eq example_request_reads
        IPRequest_def FaucetRequest_def)
  from c have c': "ip_count ?req ?s < 3 \<and> 1 \<le> wallet_count ?req ''AWallet1'' ?s" by simp
  note denial = wallet_denial_writes_nothing [OF r q, of ?s ?req]
  from denial c'
  have "IPRequest_table (state_of (ask_for_assets example_config ?req ?s)) = IPRequest_table ?s"
    and "FaucetRequest_table (state_of (ask_for_assets example_config ?req ?s)) =
           FaucetRequest_table ?s"
    and m: "message_of (response_of (ask_for_assets example_config ?req ?s)) =
           Some (PStr ''Already requested within the past week'')"
    by blast+
  then have "IPRequest_table (state_of (ask_for_assets example_config ?req ?s)) =
        [IPRequest ''1.2.3.4'' 1533600000000000 1534204800]"
    and "FaucetRequest_table (state_of (ask_for_assets example_config ?req ?s)) =
        [FaucetRequest ''AWallet1'' 1533600000000000 1534204800]"
    by simp_all
  with r c m show ?thesis by (simp only: simp_thms)
qed

text \<open>
  C4. What the code does without a wallet address. The message of line 322, "You must
  input a wallet address to proceed", is shown by no call of \<^verbatim>\<open>ask_for_assets\<close> at all. A
  request that has no \<^verbatim>\<open>address_to\<close> field gets the index page with the welcome message
  and \<^verbatim>\<open>error\<close> false, and writes nothing. A field of blanks is not refused either:
  stripped to the empty string, it goes through both checks and is admitted as the wallet
  address.
\<close>

theorem missing_address_shows_no_error:
  "message_of (response_of (ask_for_assets cfg req s))
     \<noteq> Some (PStr ''You must input a wallet address to proceed'')
 \<and> message_of (response_of (ask_for_assets example_config
      ((example_request '''' (Some ''1.2.3.4'') 1533600000000000)\<lparr>args_address_to := None\<rparr>)
      fresh_state)) = Some (PStr ''Welcome to NEP-5 Faucet'')
 \<and> error_of (response_of (ask_for_assets example_config
      ((example_request '''' (Some ''1.2.3.4'') 1533600000000000)\<lparr>args_address_to := None\<rparr>)
      fresh_state)) = Some (PBool False)
 \<and> state_of (ask_for_assets example_config
      ((example_request '''' (Some ''1.2.3.4'') 1533600000000000)\<lparr>args_address_to := None\<rparr>)
      fresh_state) = fresh_state
 \<and> effects_of (ask_for_assets example_config
      ((example_request '''' (Some ''1.2.3.4'') 1533600000000000)\<lparr>args_address_to := None\<rparr>)
      fresh_state) = []
 \<and> form_address (example_request ''   '' (Some ''1.2.3.4'') 1533600000000000) = Some ''''
 \<and> admitted example_config (example_request ''   '' (Some ''1.2.3.4'') 1533600000000000)
      fresh_state"
proof -
  let ?req = "example_request ''   '' (Some ''1.2.3.4'') 1533600000000000"
  have r: "reaches_checks example_config ?req ''''"
    using example_request_reaches [of "''   ''"] by (simp add: strip_example)
  have q: "IPRequest_query_raises ?req = None" "FaucetRequest_query_raises ?req = None"
    by (simp_all add: example_request_reads)
  have c: "ip_count ?req fresh_state = 0" "wallet_count ?req '''' fresh_state = 0"
    by (simp_all add: ip_count_def wallet_count_def count_past_week_eq fresh_state_def)
  from admitted_iff [OF r q, of fresh_state] c have "admitted example_config ?req fresh_state"
    by simp
  moreover from r have "form_address ?req = Some ''''" by (simp add: reaches_checks_def)
  moreover note ask_for_assets_message [of cfg req s]
  ultimately show ?thesis
    by (simp add: ask_for_assets_def try_body_def answer_def get_context_def response_of_def
        state_of_def effects_of_def example_config_def example_request_def fresh_state_def
        Let_def)
qed

text \<open>
  C5. When the balance is below 10000 (and the token symbol is not one of the context
  keys written over it), \<^verbatim>\<open>ask_for_assets\<close> answers with the redirect to the index page
  before anything else: the effects are empty, so no table is read or written, the
  tables are as before, and the index page it redirects to shows the come-back message.
\<close>

theorem low_balance_short_circuits:
  assumes "symbol_ok cfg" and "balance req < 10000"
  shows "ask_for_assets cfg req s = (Redirect ''/'', s\<lparr>sent_tx := None\<rparr>, [])
       \<and> \<not> list_ex is_ledger_read (effects_of (ask_for_assets cfg req s))
       \<and> \<not> list_ex is_ledger_write (effects_of (ask_for_assets cfg req s))
       \<and> IPRequest_table (state_of (ask_for_assets cfg req s)) = IPRequest_table s
       \<and> FaucetRequest_table (state_of (ask_for_assets cfg req s)) = FaucetRequest_table s
       \<and> message_of (index cfg req) = Some (PStr ''NO ASSETS AVAILABLE. Come back later.'')
       \<and> error_of (index cfg req) = Some (PBool True)"
proof -
  from assms have "balance_test cfg req = Inr True"
    by (simp add: balance_test_symbol_ok)
  then have "ask_for_assets cfg req s = (Redirect ''/'', s\<lparr>sent_tx := None\<rparr>, [])"
    by (rule ask_for_assets_unavailable)
  moreover from assms have "py_less_int (get_context cfg req (token_symbol cfg)) 10000 = Inr True"
    by (auto simp: symbol_ok_def get_context_def balance_def)
  then have "index cfg req =
    Rendered ''index.html''
      ((get_context cfg req)
         (''error'' \<mapsto> PBool True,
          ''message'' \<mapsto> PStr ''NO ASSETS AVAILABLE. Come back later.'',
          ''come_back'' \<mapsto> PBool True))"
    by (simp add: index_def Let_def)
  ultimately show ?thesis by (simp add: effects_of_def state_of_def)
qed

theorem low_balance_short_circuits_witness:
  "symbol_ok example_config
 \<and> balance ((example_request ''AWallet1'' (Some ''1.2.3.4'') 1533600000000000)
      \<lparr>GetTokenBalance := Some 9999\<rparr>) < 10000
 \<and> ask_for_assets example_config
      ((example_request ''AWallet1'' (Some ''1.2.3.4'') 1533600000000000)
         \<lparr>GetTokenBalance := Some 9999\<rparr>) fresh_state
    = (Redirect ''/'', fresh_state, [])"
proof -
  have h: "symbol_ok example_config"
    "balance ((example_request ''AWallet1'' (Some ''1.2.3.4'') 1533600000000000)
      \<lparr>GetTokenBalance := Some 9999\<rparr>) < 10000"
    by (simp_all add: symbol_ok_def example_config_def balance_def example_request_def)
  from low_balance_short_circuits [OF h, of fresh_state]
  have "ask_for_assets example_config
      ((example_request ''AWallet1'' (Some ''1.2.3.4'') 1533600000000000)
         \<lparr>GetTokenBalance := Some 9999\<rparr>) fresh_state
    = (Redirect ''/'', fresh_state\<lparr>sent_tx := None\<rparr>, [])"
    by blast
  with h show ?thesis by (simp add: fresh_state_def)
qed


text \<open>
  C6. A claim that has passed both checks and committed its two records, and whose
  transfer then fails (an address that does not convert, an exception of the invocation,
  or a returned value that is no \<^verbatim>\<open>InvocationTransaction\<close>): the page shows an error and
  not the success redirect, and both tables are the tables before with the claim's
  record saved. Nothing undoes the writes, so the quota is used: any later request
  whose window contains the claim's instant counts at least one record for the wallet
  and for the IP address.
\<close>

theorem failed_transfer_keeps_records:
  assumes "committed cfg req s" and "form_address req = Some a"
    and "\<not> transfer_submitted cfg req a"
  shows "IPRequest_table (state_of (ask_for_assets cfg req s)) =
           save (IPRequest (client_of req) (now req) (expire_date req)) (IPRequest_table s)
       \<and> FaucetRequest_table (state_of (ask_for_assets cfg req s)) =
           save (FaucetRequest a (now req) (expire_date req)) (FaucetRequest_table s)
       \<and> IPRequest (client_of req) (now req) (expire_date req)
           \<in> set (IPRequest_table (state_of (ask_for_assets cfg req s)))
       \<and> FaucetRequest a (now req) (expire_date req)
           \<in> set (FaucetRequest_table (state_of (ask_for_assets cfg req s)))
       \<and> response_of (ask_for_assets cfg req s) \<noteq> Redirect ''/success''
       \<and> error_of (response_of (ask_for_assets cfg req s)) = Some (PBool True)
       \<and> (\<forall>req'. past_week req' < now req \<longrightarrow>
             1 \<le> wallet_count req' a (state_of (ask_for_assets cfg req s))
           \<and> (client_of req' = client_of req \<longrightarrow>
                1 \<le> ip_count req' (state_of (ask_for_assets cfg req s))))"
proof -
  let ?s' = "state_of (ask_for_assets cfg req s)"
  let ?ip = "IPRequest (client_of req) (now req) (expire_date req)"
  let ?w = "FaucetRequest a (now req) (expire_date req)"
  from committed_checks [OF assms(1,2)] have r: "reaches_checks cfg req a"
    and c: "IPRequest_query_raises req = None" "FaucetRequest_query_raises req = None"
      "ip_count req s < 3" "wallet_count req a s < 1"
      "IPRequest_save_raises req = None" "FaucetRequest_save_raises req = None"
    by simp_all
  have ip: "IPRequest_table ?s' = save ?ip (IPRequest_table s)"
    and w: "FaucetRequest_table ?s' = save ?w (FaucetRequest_table s)"
    by (rule ask_for_assets_committed [OF r c])+
  then have mem: "?ip \<in> set (IPRequest_table ?s')" "?w \<in> set (FaucetRequest_table ?s')"
    by (simp_all add: save_def)
  from ask_for_assets_transfer(2) [OF assms] obtain c
    where resp: "response_of (ask_for_assets cfg req s) = Rendered ''index.html'' c"
      and err: "c ''error'' = Some (PBool True)"
    by blast
  have later: "1 \<le> wallet_count req' a ?s'
      \<and> (client_of req' = client_of req \<longrightarrow> 1 \<le> ip_count req' ?s')"
    if "past_week req' < now req" for req'
  proof -
    from that have "past_week req' < last_visited ?w" "past_week req' < last_visited ?ip"
      by (simp_all add: FaucetRequest_def IPRequest_def)
    with mem have "1 \<le> count_past_week (FaucetRequest_table ?s') (hash_key ?w) (past_week req')"
      and "1 \<le> count_past_week (IPRequest_table ?s') (hash_key ?ip) (past_week req')"
      by (simp_all only: record_in_window_counts)
    then show ?thesis
      by (simp add: wallet_count_def ip_count_def FaucetRequest_def IPRequest_def)
  qed
  from ip w mem resp err later show ?thesis by simp
qed

theorem failed_transfer_keeps_records_witness:
  "committed example_config
     ((example_request ''AWallet1'' (Some ''1.2.3.4'') 1533600000000000)
        \<lparr>InvokeContract := Inr (Other ''False'' False)\<rparr>) fresh_state
 \<and> form_address
     ((example_request ''AWallet1'' (Some ''1.2.3.4'') 1533600000000000)
        \<lparr>InvokeContract := Inr (Other ''False'' False)\<rparr>) = Some ''AWallet1''
 \<and> \<not> transfer_submitted example_config
     ((example_request ''AWallet1'' (Some ''1.2.3.4'') 1533600000000000)
        \<lparr>InvokeContract := Inr (Other ''False'' False)\<rparr>) ''AWallet1''
 \<and> state_of (ask_for_assets example_config
     ((example_request ''AWallet1'' (Some ''1.2.3.4'') 1533600000000000)
        \<lparr>InvokeContract := Inr (Other ''False'' False)\<rparr>) fresh_state)
    = \<lparr>IPRequest_table = [IPRequest ''1.2.3.4'' 1533600000000000 1534204800],
       FaucetRequest_table = [FaucetRequest ''AWallet1'' 1533600000000000 1534204800],
       sent_tx = Some (Other ''False'' False)\<rparr>
 \<and> message_of (response_of (ask_for_assets example_config
     ((example_request ''AWallet1'' (Some ''1.2.3.4'') 1533600000000000)
        \<lparr>InvokeContract := Inr (Other ''False'' False)\<rparr>) fresh_state))
    = Some (PStr ''Error constructing transaction: False'')
 \<and> error_of (response_of (ask_for_assets example_config
     ((example_request ''AWallet1'' (Some ''1.2.3.4'') 1533600000000000)
        \<lparr>InvokeContract := Inr (Other ''False'' False)\<rparr>) fresh_state))
    = Some (PBool True)
 \<and> 1 \<le> wallet_count (example_request ''AWallet1'' (Some ''5.6.7.8'') 1533686400000000)
     ''AWallet1''
     (state_of (ask_for_assets example_config
       ((example_request ''AWallet1'' (Some ''1.2.3.4'') 1533600000000000)
          \<lparr>InvokeContract := Inr (Other ''False'' False)\<rparr>) fresh_state))"
proof -
  let ?req = "(example_request ''AWallet1'' (Some ''1.2.3.4'') 1533600000000000)
        \<lparr>InvokeContract := Inr (Other ''False'' False)\<rparr>"
  have run: "ask_for_assets example_config ?req fresh_state =
    (Rendered ''index.html''
       ((get_context example_config ?req)
          (''error'' \<mapsto> PBool False, ''address_to'' \<mapsto> PStr ''AWallet1'',
           ''message'' \<mapsto> PStr ''Error constructing transaction: False'',
           ''error'' \<mapsto> PBool True)),
     \<lparr>IPRequest_table = [IPRequest ''1.2.3.4'' 1533600000000000 1534204800],
       FaucetRequest_table = [FaucetRequest ''AWallet1'' 1533600000000000 1534204800],
       sent_tx = Some (Other ''False'' False)\<rparr>,
     [Query_IPRequest ''1.2.3.4'' 1532995200000000,
      Query_FaucetRequest ''AWallet1'' 1532995200000000,
      Save_IPRequest (IPRequest ''1.2.3.4'' 1533600000000000 1534204800),
      Save_FaucetRequest (FaucetRequest ''AWallet1'' 1533600000000000 1534204800),
      Invoke_transfer ''AFaucetWallet'' ''AWallet1'' 1000000000000])"
    by (simp add: ask_for_assets_def try_body_def answer_def then_do_def IPRequest_block_def
        FaucetRequest_block_def transaction_block_def make_tx_def save_IPRequest_def
        save_FaucetRequest_def save_def log_def raise_def count_past_week_def query_def
        now_def past_week_def expire_date_def week_in_sec_def timedelta_days_def
        strip_def isspace_def example_config_def example_request_def fresh_state_def
        get_context_def Let_def)
  have cm: "committed example_config ?req fresh_state"
    unfolding committed_def admitted_def run
    by (simp add: effects_of_def example_request_def)
  have fa: "form_address ?req = Some ''AWallet1''"
    by (simp add: form_address_def example_request_def strip_example)
  have tr: "\<not> transfer_submitted example_config ?req ''AWallet1''"
    by (simp add: transfer_submitted_def example_request_def)
  have pw: "past_week (example_request ''AWallet1'' (Some ''5.6.7.8'') 1533686400000000) < now ?req"
    by (simp add: past_week_def now_def timedelta_days_def example_request_def)
  note kept = failed_transfer_keeps_records [OF cm fa tr]
  from kept have err: "error_of (response_of (ask_for_assets example_config ?req fresh_state))
      = Some (PBool True)"
    by blast
  from kept pw
  have used: "1 \<le> wallet_count (example_request ''AWallet1'' (Some ''5.6.7.8'') 1533686400000000)
      ''AWallet1'' (state_of (ask_for_assets example_config ?req fresh_state))"
    by blast
  have st: "state_of (ask_for_assets example_config ?req fresh_state)
    = \<lparr>IPRequest_table = [IPRequest ''1.2.3.4'' 1533600000000000 1534204800],
       FaucetRequest_table = [FaucetRequest ''AWallet1'' 1533600000000000 1534204800],
       sent_tx = Some (Other ''False'' False)\<rparr>"
    and msg: "message_of (response_of (ask_for_assets example_config ?req fresh_state))
    = Some (PStr ''Error constructing transaction: False'')"
    unfolding run by (simp_all add: state_of_def response_of_def)
  from cm fa tr st msg err used show ?thesis by (simp only: simp_thms)
qed




text \<open>
  C8. Save \<open>N\<close> records of one identity, at \<open>N\<close> different instants, into any table. While
  all of them are inside the window of \<open>now\<close> (later than \<open>now\<close> minus seven days), the
  count for the identity is at least \<open>min N 10\<close>, and it never exceeds the cap of 10. Once
  the window has passed for all of them (seven days or more after each), they are
  counted no longer: the count is what the table gave without them, and 0 on a table
  that held nothing else.
\<close>

theorem count_after_saving_records:
  assumes "\<forall>r \<in> set rs. hash_key r = k" and "distinct (map last_visited rs)"
  shows "((\<forall>r \<in> set rs. now req - timedelta_days 7 < last_visited r) \<longrightarrow>
            int (min (length rs) 10) \<le> count_past_week (fold save rs tbl) k (past_week req))
       \<and> count_past_week (fold save rs tbl) k (past_week req) \<le> 10
       \<and> ((\<forall>r \<in> set rs. last_visited r + timedelta_days 7 \<le> now req') \<longrightarrow>
            count_past_week (fold save rs tbl) k (past_week req') = count_past_week tbl k (past_week req')
          \<and> count_past_week (fold save rs []) k (past_week req') = 0)"
proof -
  have inside: "int (min (length rs) 10) \<le> count_past_week (fold save rs tbl) k (past_week req)"
    if w: "\<forall>r \<in> set rs. now req - timedelta_days 7 < last_visited r"
  proof -
    let ?T = "last_visited ` set rs"
    have "\<forall>t \<in> ?T. \<exists>r \<in> set (fold save rs tbl).
        hash_key r = k \<and> last_visited r = t \<and> past_week req < t"
      using assms w fold_save_member [of _ rs tbl] by (auto simp: past_week_def)
    then have "int (min 10 (card ?T)) \<le> count_past_week (fold save rs tbl) k (past_week req)"
      by (rule count_past_week_ge) simp
    moreover from distinct_card [OF assms(2)] have "card ?T = length rs"
      by simp
    ultimately show ?thesis by (simp add: min.commute)
  qed
  have elapsed: "count_past_week (fold save rs tbl') k (past_week req') =
      count_past_week tbl' k (past_week req')"
    if "\<forall>r \<in> set rs. last_visited r + timedelta_days 7 \<le> now req'" for tbl'
  proof -
    from that have "\<forall>r \<in> set rs. last_visited r \<le> past_week req'"
      by (auto simp: past_week_def)
    then show ?thesis by (rule count_fold_save_elapsed)
  qed
  have "count_past_week [] k (past_week req') = 0"
    by (simp add: count_past_week_eq)
  with inside elapsed [of tbl] elapsed [of "[]"] count_past_week_le_10 [of "fold save rs tbl" k]
  show ?thesis by simp
qed

theorem count_after_saving_records_witness:
  "list_all (\<lambda>r. hash_key r = ''1.2.3.4'')
     [IPRequest ''1.2.3.4'' 1533600000000000 1534204800,
      IPRequest ''1.2.3.4'' 1533686400000000 1534291200]
 \<and> distinct (map last_visited [IPRequest ''1.2.3.4'' 1533600000000000 1534204800,
                                IPRequest ''1.2.3.4'' 1533686400000000 1534291200])
 \<and> count_past_week
      (fold save [IPRequest ''1.2.3.4'' 1533600000000000 1534204800,
                  IPRequest ''1.2.3.4'' 1533686400000000 1534291200] [])
      ''1.2.3.4'' (past_week (example_request ''AWallet3'' (Some ''1.2.3.4'') 1533772800000000)) = 2
 \<and> int (min (length [IPRequest ''1.2.3.4'' 1533600000000000 1534204800,
                      IPRequest ''1.2.3.4'' 1533686400000000 1534291200]) 10)
      \<le> count_past_week
          (fold save [IPRequest ''1.2.3.4'' 1533600000000000 1534204800,
                      IPRequest ''1.2.3.4'' 1533686400000000 1534291200] [])
          ''1.2.3.4'' (past_week (example_request ''AWallet3'' (Some ''1.2.3.4'') 1533772800000000))
 \<and> count_past_week
      (fold save [IPRequest ''1.2.3.4'' 1533600000000000 1534204800,
                  IPRequest ''1.2.3.4'' 1533686400000000 1534291200] [])
      ''1.2.3.4'' (past_week (example_request ''AWallet3'' (Some ''1.2.3.4'') 1534291200000000)) = 0"
proof -
  let ?rs = "[IPRequest ''1.2.3.4'' 1533600000000000 1534204800,
              IPRequest ''1.2.3.4'' 1533686400000000 1534291200]"
  let ?req = "example_request ''AWallet3'' (Some ''1.2.3.4'') 1533772800000000"
  let ?req' = "example_request ''AWallet3'' (Some ''1.2.3.4'') 1534291200000000"
  have h: "\<forall>r \<in> set ?rs. hash_key r = ''1.2.3.4''" "distinct (map last_visited ?rs)"
    by (simp_all add: IPRequest_def)
  have inside: "\<forall>r \<in> set ?rs. now ?req - timedelta_days 7 < last_visited r"
    and elapsed: "\<forall>r \<in> set ?rs. last_visited r + timedelta_days 7 \<le> now ?req'"
    by (simp_all add: IPRequest_def example_request_reads timedelta_days_def)
  note counts = count_after_saving_records [OF h, of ?req "[]" ?req']
  from counts inside have lower: "int (min (length ?rs) 10)
      \<le> count_past_week (fold save ?rs []) ''1.2.3.4'' (past_week ?req)"
    by blast
  from counts elapsed have zero: "count_past_week (fold save ?rs []) ''1.2.3.4'' (past_week ?req') = 0"
    by blast
  have two: "count_past_week (fold save ?rs []) ''1.2.3.4'' (past_week ?req) = 2"
    by (simp add: count_past_week_eq save_def same_key_def IPRequest_def example_request_reads)
  from h have "list_all (\<lambda>r. hash_key r = ''1.2.3.4'') ?rs"
    by (simp only: list_all_iff)
  with h two lower zero show ?thesis by (simp only: simp_thms)
qed


text \<open>
  C9. A request without the \<^verbatim>\<open>x-real-ip\<close> header is rate-limited under the identity
  "None": that is its client identity, the IP table is queried under that key, and that is
  the key of the IP record it leaves when its claim is committed. So all such requests
  draw on one quota: once claims committed for requests without the header fall on three
  different instants inside the window of a further request without the header, that
  request is denied at the IP check.
\<close>

theorem missing_header_shares_quota:
  assumes "reaches_checks cfg req a" and "header_x_real_ip req = None"
  shows "client_of req = ''None''
       \<and> (\<exists>es. effects_of (ask_for_assets cfg req s) = Query_IPRequest ''None'' (past_week req) # es)
       \<and> (committed cfg req s \<longrightarrow>
            IPRequest ''None'' (now req) (expire_date req)
              \<in> set (IPRequest_table (state_of (ask_for_assets cfg req s))))
       \<and> (IPRequest_query_raises req = None
            \<and> 3 \<le> card (set (filter (\<lambda>t. past_week req < t)
                    (committed_instants cfg (\<lambda>r. header_x_real_ip r = None) rs s))) \<longrightarrow>
            message_of (response_of (ask_for_assets cfg req (run cfg rs s))) =
              Some (PStr
                ''You have requested too many times for this time period. Try again next week.'')
          \<and> effects_of (ask_for_assets cfg req (run cfg rs s)) =
              [Query_IPRequest ''None'' (past_week req)])"
proof -
  from assms(2) have cl: "client_of req = ''None''"
    by (simp add: client_of_def)
  from ask_for_assets_first_effect [OF assms(1), of s] cl
  have first: "\<exists>es. effects_of (ask_for_assets cfg req s) = Query_IPRequest ''None'' (past_week req) # es"
    by simp
  from committed_IP_record [of cfg req s] cl
  have saved: "committed cfg req s \<longrightarrow>
      IPRequest ''None'' (now req) (expire_date req)
        \<in> set (IPRequest_table (state_of (ask_for_assets cfg req s)))"
    by simp
  have quota: "message_of (response_of (ask_for_assets cfg req (run cfg rs s))) =
        Some (PStr
          ''You have requested too many times for this time period. Try again next week.'')
      \<and> effects_of (ask_for_assets cfg req (run cfg rs s)) =
          [Query_IPRequest ''None'' (past_week req)]"
    if q: "IPRequest_query_raises req = None"
      and three: "3 \<le> card (set (filter (\<lambda>t. past_week req < t)
                    (committed_instants cfg (\<lambda>r. header_x_real_ip r = None) rs s)))"
  proof -
    have same: "\<forall>r. header_x_real_ip r = None \<longrightarrow> client_of r = client_of req"
      using assms(2) by (simp add: client_of_def)
    from three
    have "3 \<le> card {t \<in> set (committed_instants cfg (\<lambda>r. header_x_real_ip r = None) rs s).
                      past_week req < t}"
      by simp
    from quota_exhausted [OF assms(1) q same this] show ?thesis
      by (simp add: response_of_def effects_of_def cl)
  qed
  from cl first saved quota show ?thesis by blast
qed

theorem missing_header_shares_quota_witness:
  "reaches_checks example_config (example_request ''AWallet4'' None 1533859200000000) ''AWallet4''
 \<and> header_x_real_ip (example_request ''AWallet4'' None 1533859200000000) = None
 \<and> IPRequest_query_raises (example_request ''AWallet4'' None 1533859200000000) = None
 \<and> committed_instants example_config (\<lambda>r. header_x_real_ip r = None)
      [example_request ''AWallet1'' None 1533600000000000,
       example_request ''AWallet2'' None 1533686400000000,
       example_request ''AWallet3'' None 1533772800000000] fresh_state
    = [1533600000000000, 1533686400000000, 1533772800000000]
 \<and> client_of (example_request ''AWallet4'' None 1533859200000000) = ''None''
 \<and> effects_of (ask_for_assets example_config
      (example_request ''AWallet4'' None 1533859200000000)
      (run example_config
        [example_request ''AWallet1'' None 1533600000000000,
         example_request ''AWallet2'' None 1533686400000000,
         example_request ''AWallet3'' None 1533772800000000] fresh_state))
    = [Query_IPRequest ''None'' 1533254400000000]"
proof -
  let ?r1 = "example_request ''AWallet1'' None 1533600000000000"
  let ?r2 = "example_request ''AWallet2'' None 1533686400000000"
  let ?r3 = "example_request ''AWallet3'' None 1533772800000000"
  let ?r4 = "example_request ''AWallet4'' None 1533859200000000"
  let ?tx = "Some (InvocationTransaction \<lparr>ToJson = ''{}'', Hash = ''deadbeef''\<rparr>)"
  let ?s1 = "\<lparr>IPRequest_table = [IPRequest ''None'' 1533600000000000 1534204800],
     FaucetRequest_table = [FaucetRequest ''AWallet1'' 1533600000000000 1534204800],
     sent_tx = ?tx\<rparr>"
  let ?s2 = "\<lparr>IPRequest_table = [IPRequest ''None'' 1533600000000000 1534204800,
                        IPRequest ''None'' 1533686400000000 1534204800],
     FaucetRequest_table = [FaucetRequest ''AWallet1'' 1533600000000000 1534204800,
                            FaucetRequest ''AWallet2'' 1533686400000000 1534204800],
     sent_tx = ?tx\<rparr>"
  have c1: "ip_count ?r1 fresh_state < 3" "wallet_count ?r1 (strip ''AWallet1'') fresh_state < 1"
    by (simp_all add: ip_count_def wallet_count_def count_past_week_eq fresh_state_def)
  have c2: "ip_count ?r2 ?s1 < 3" "wallet_count ?r2 (strip ''AWallet2'') ?s1 < 1"
    by (simp_all add: ip_count_def wallet_count_def count_past_week_eq example_request_reads
        strip_example IPRequest_def FaucetRequest_def)
  have c3: "ip_count ?r3 ?s2 < 3" "wallet_count ?r3 (strip ''AWallet3'') ?s2 < 1"
    by (simp_all add: ip_count_def wallet_count_def count_past_week_eq example_request_reads
        strip_example IPRequest_def FaucetRequest_def)
  have s1: "state_of (ask_for_assets example_config ?r1 fresh_state) = ?s1"
    unfolding example_request_succeeds [OF c1]
    by (simp add: state_of_def save_def strip_example fresh_state_def)
  have s2: "state_of (ask_for_assets example_config ?r2 ?s1) = ?s2"
    unfolding example_request_succeeds [OF c2]
    by (simp add: state_of_def save_def same_key_def strip_example IPRequest_def FaucetRequest_def)
  note k1 = example_request_committed [OF c1]
  note k2 = example_request_committed [OF c2]
  note k3 = example_request_committed [OF c3]
  have hd: "header_x_real_ip (example_request address None t) = None" for address t
    by (simp add: example_request_def)
  have inst: "committed_instants example_config (\<lambda>r. header_x_real_ip r = None)
      [?r1, ?r2, ?r3] fresh_state = [1533600000000000, 1533686400000000, 1533772800000000]"
    using k1 k2 k3 by (simp add: s1 s2 hd example_request_reads)
  have r: "reaches_checks example_config ?r4 ''AWallet4''"
    using example_request_reaches [of "''AWallet4''"] by (simp add: strip_example)
  have q: "IPRequest_query_raises ?r4 = None"
    by (simp add: example_request_reads)
  have three: "3 \<le> card (set (filter (\<lambda>t. past_week ?r4 < t)
      (committed_instants example_config (\<lambda>r. header_x_real_ip r = None) [?r1, ?r2, ?r3]
         fresh_state)))"
    unfolding inst by (simp add: example_request_reads)
  note shared = missing_header_shares_quota [OF r hd, of fresh_state "[?r1, ?r2, ?r3]"]
  from shared have cl: "client_of ?r4 = ''None''" by blast
  from shared q three
  have "effects_of (ask_for_assets example_config ?r4 (run example_config [?r1, ?r2, ?r3] fresh_state))
      = [Query_IPRequest ''None'' (past_week ?r4)]"
    by blast
  then have "effects_of (ask_for_assets example_config ?r4
        (run example_config [?r1, ?r2, ?r3] fresh_state))
      = [Query_IPRequest ''None'' 1533254400000000]"
    by (simp add: example_request_reads)
  with r hd q inst cl show ?thesis by (simp only: simp_thms)
qed


text \<open>
  C10. The stored sent transaction is shown once. \<^verbatim>\<open>ask_for_assets\<close> starts by resetting
  it: the call does what it would do with nothing stored, and unless the claim is
  admitted nothing is stored afterwards. \<^verbatim>\<open>app_success\<close> redirects to the index page, and
  changes nothing, whenever the stored value is \<^verbatim>\<open>None\<close> or falsy; when a transaction is
  stored it renders the success page with the transaction and resets the stored value, so
  the next visit of the success page is redirected to the index page.
\<close>

theorem sent_tx_is_one_shot:
  "ask_for_assets cfg req s = ask_for_assets cfg req (s\<lparr>sent_tx := None\<rparr>)
 \<and> (\<not> admitted cfg req s \<longrightarrow> sent_tx (state_of (ask_for_assets cfg req s)) = None)
 \<and> (falsy (sent_tx s) \<longrightarrow> app_success cfg req' s = (Redirect ''/'', s, []))
 \<and> (sent_tx s = Some (InvocationTransaction t) \<longrightarrow>
       response_of (app_success cfg req' s) =
         Rendered ''success.html''
           ((get_context cfg req')
              (''tx_json'' \<mapsto> PStr (ToJson t),
               ''message'' \<mapsto> PStr
                  (''Your request has been relayed to the network. Transaction: '' @ Hash t)))
     \<and> sent_tx (state_of (app_success cfg req' s)) = None
     \<and> app_success cfg req'' (state_of (app_success cfg req' s)) =
         (Redirect ''/'', s\<lparr>sent_tx := None\<rparr>, []))"
proof -
  have reset: "ask_for_assets cfg req s = ask_for_assets cfg req (s\<lparr>sent_tx := None\<rparr>)"
    by (simp add: ask_for_assets_def)
  have rejected: "sent_tx (state_of (ask_for_assets cfg req s)) = None" if "\<not> admitted cfg req s"
    using not_admitted_state [OF that] by simp
  have none: "app_success cfg req' s = (Redirect ''/'', s, [])" if "falsy (sent_tx s)"
    using that by (simp add: app_success_def)
  have once: "response_of (app_success cfg req' s) =
         Rendered ''success.html''
           ((get_context cfg req')
              (''tx_json'' \<mapsto> PStr (ToJson t),
               ''message'' \<mapsto> PStr
                  (''Your request has been relayed to the network. Transaction: '' @ Hash t)))
     \<and> sent_tx (state_of (app_success cfg req' s)) = None
     \<and> app_success cfg req'' (state_of (app_success cfg req' s)) =
         (Redirect ''/'', s\<lparr>sent_tx := None\<rparr>, [])"
    if "sent_tx s = Some (InvocationTransaction t)"
    using that by (simp add: app_success_def response_of_def state_of_def)
  from reset rejected none once show ?thesis by blast
qed

theorem sent_tx_is_one_shot_witness:
  "sent_tx (fresh_state\<lparr>sent_tx := Some (InvocationTransaction \<lparr>ToJson = ''{}'', Hash = ''deadbeef''\<rparr>)\<rparr>)
     = Some (InvocationTransaction \<lparr>ToJson = ''{}'', Hash = ''deadbeef''\<rparr>)
 \<and> falsy (sent_tx fresh_state)
 \<and> app_success example_config (example_request '''' None 1533600000000000) fresh_state
     = (Redirect ''/'', fresh_state, [])
 \<and> message_of (response_of (app_success example_config
      (example_request '''' None 1533600000000000)
      (fresh_state\<lparr>sent_tx :=
         Some (InvocationTransaction \<lparr>ToJson = ''{}'', Hash = ''deadbeef''\<rparr>)\<rparr>)))
     = Some (PStr ''Your request has been relayed to the network. Transaction: deadbeef'')
 \<and> app_success example_config (example_request '''' None 1533600000000001)
      (state_of (app_success example_config (example_request '''' None 1533600000000000)
         (fresh_state\<lparr>sent_tx :=
            Some (InvocationTransaction \<lparr>ToJson = ''{}'', Hash = ''deadbeef''\<rparr>)\<rparr>)))
     = (Redirect ''/'', fresh_state, [])
 \<and> \<not> admitted example_config
      ((example_request '''' None 1533600000000000)\<lparr>args_address_to := None\<rparr>)
      (fresh_state\<lparr>sent_tx :=
         Some (InvocationTransaction \<lparr>ToJson = ''{}'', Hash = ''deadbeef''\<rparr>)\<rparr>)
 \<and> sent_tx (state_of (ask_for_assets example_config
      ((example_request '''' None 1533600000000000)\<lparr>args_address_to := None\<rparr>)
      (fresh_state\<lparr>sent_tx :=
         Some (InvocationTransaction \<lparr>ToJson = ''{}'', Hash = ''deadbeef''\<rparr>)\<rparr>))) = None"
proof -
  let ?t = "\<lparr>ToJson = ''{}'', Hash = ''deadbeef''\<rparr>"
  let ?s = "fresh_state\<lparr>sent_tx := Some (InvocationTransaction ?t)\<rparr>"
  let ?r = "example_request '''' None 1533600000000000"
  let ?r' = "example_request '''' None 1533600000000001"
  let ?q = "?r\<lparr>args_address_to := None\<rparr>"
  have st: "sent_tx ?s = Some (InvocationTransaction ?t)" and fl: "falsy (sent_tx fresh_state)"
    by (simp_all add: fresh_state_def)
  have reset: "?s\<lparr>sent_tx := None\<rparr> = fresh_state"
    by (simp add: fresh_state_def)
  have "\<forall>a. \<not> reaches_checks example_config ?q a"
    by (simp add: reaches_checks_def form_address_def example_request_def)
  then have "effects_of (ask_for_assets example_config ?q ?s) = []"
    by (simp add: ask_for_assets_no_checks)
  then have na: "\<not> admitted example_config ?q ?s"
    by (simp add: admitted_def)
  note shot = sent_tx_is_one_shot [of example_config ?q ?s ?r ?t ?r']
  from shot na have a: "sent_tx (state_of (ask_for_assets example_config ?q ?s)) = None"
    by blast
  from shot st have "response_of (app_success example_config ?r ?s) =
         Rendered ''success.html''
           ((get_context example_config ?r)
              (''tx_json'' \<mapsto> PStr (ToJson ?t),
               ''message'' \<mapsto> PStr
                  (''Your request has been relayed to the network. Transaction: '' @ Hash ?t)))"
    and "app_success example_config ?r' (state_of (app_success example_config ?r ?s)) =
         (Redirect ''/'', ?s\<lparr>sent_tx := None\<rparr>, [])"
    by blast+
  then have b: "message_of (response_of (app_success example_config ?r ?s))
      = Some (PStr ''Your request has been relayed to the network. Transaction: deadbeef'')"
    and c: "app_success example_config ?r' (state_of (app_success example_config ?r ?s)) =
         (Redirect ''/'', fresh_state, [])"
    by (simp_all add: reset)
  from sent_tx_is_one_shot [of example_config ?r fresh_state ?r ?t ?r'] fl
  have d: "app_success example_config ?r fresh_state = (Redirect ''/'', fresh_state, [])"
    by blast
  from st fl d b c na a show ?thesis by (simp only: simp_thms)
qed


end
